theory Spec2Isabelle
  imports Main "HOL-Library.AList"
begin

section \<open>Values\<close>

text \<open>
  Python values of type \<open>Any\<close> that the registry only carries around (facets, tags,
  contract documents). \<open>JOpaque\<close> stands for a Python object that \<open>json.dumps\<close> cannot
  serialise (a \<open>set\<close>, a \<open>datetime\<close>, a numpy integer, ...). Numbers are an uninterpreted
  payload; no function below computes with them.

  Strings are \<open>string\<close>; a \<open>char\<close> is a code point below 256, so the model covers the Python
  strings made of such code points. The regular expressions of the exporters keep only
  ASCII letters, digits and the underscore, and every string a sanitizer returns is made
  of these.
\<close>

datatype jval = JNull | JBool bool | JNum int | JStr string
  | JList "jval list" | JObj "(string \<times> jval) list" | JOpaque

text \<open>\<open>json.dumps(v)\<close> raises \<open>TypeError\<close> exactly when \<open>v\<close> holds such an object.\<close>

fun serializable :: "jval \<Rightarrow> bool" where
  "serializable (JList xs) = list_all serializable xs"
| "serializable (JObj kvs) = list_all (\<lambda>kv. serializable (snd kv)) kvs"
| "serializable JOpaque = False"
| "serializable _ = True"

datatype error = KeyError string | ValueError string | TypeError | OSError | RuntimeError string

section \<open>core/datasets.py and core/registry.py: the data model\<close>

text \<open>\<open>DatasetRef\<close>, the dataclass of core/datasets.py.\<close>

record DatasetRef =
  ref_namespace :: string
  ref_name :: string
  ref_facets :: "(string \<times> jval) list"

text \<open>
  The dictionaries in \<open>TaskSpec.inputs\<close> and \<open>TaskSpec.outputs\<close> (\<open>List[Dict[str, Any]]\<close>).
  The code reads them with \<open>.get\<close>, so a key may be absent: \<open>None\<close> is the absent key.
  Under the keys \<open>namespace\<close> and \<open>name\<close> the values are strings, as
  \<open>DatasetRef.to_dict\<close> writes them.
\<close>

record dataset_dict =
  ds_namespace :: "string option"
  ds_name :: "string option"
  ds_facets :: "jval option"

definition DatasetRef_to_dict :: "DatasetRef \<Rightarrow> dataset_dict" where
  "DatasetRef_to_dict ds =
     \<lparr>ds_namespace = Some (ref_namespace ds), ds_name = Some (ref_name ds),
      ds_facets = Some (JObj (ref_facets ds))\<rparr>"

record TaskSpec =
  name :: string
  component_type :: string
  inputs :: "dataset_dict list"
  outputs :: "dataset_dict list"
  contracts :: "jval list"
  tags :: "(string \<times> jval) list"
  started_at :: "string option"
  finished_at :: "string option"
  status :: "string option"
  run_id :: "string option"
  parent :: "string option"

text \<open>The dataclass constructor with its defaults: \<open>TaskSpec(name, component_type, inputs, outputs)\<close>.\<close>

definition mk_TaskSpec :: "string \<Rightarrow> string \<Rightarrow> dataset_dict list \<Rightarrow> dataset_dict list \<Rightarrow> TaskSpec" where
  "mk_TaskSpec n ct ins outs =
     \<lparr>name = n, component_type = ct, inputs = ins, outputs = outs, contracts = [], tags = [],
      started_at = None, finished_at = None, status = None, run_id = None, parent = None\<rparr>"

record FlowRegistry =
  flow_name :: string
  flow_run_id :: string
  tasks :: "TaskSpec list"
  flow_started_at :: "string option"
  flow_finished_at :: "string option"
  flow_status :: string
  task_stack :: "string list"

text \<open>\<open>FlowRegistry(name=..., run_id=...)\<close> with the dataclass defaults.\<close>

definition mk_FlowRegistry :: "string \<Rightarrow> string \<Rightarrow> FlowRegistry" where
  "mk_FlowRegistry n rid =
     \<lparr>flow_name = n, flow_run_id = rid, tasks = [], flow_started_at = None,
      flow_finished_at = None, flow_status = ''RUNNING'', task_stack = []\<rparr>"

definition add_task :: "TaskSpec \<Rightarrow> FlowRegistry \<Rightarrow> FlowRegistry" where
  "add_task task r = r\<lparr>tasks := tasks r @ [task]\<rparr>"

subsection \<open>\<open>FlowRegistry.derive_edges\<close>\<close>

text \<open>The test of lines 89-90: \<open>.get\<close> on both keys, \<open>None == None\<close> included.\<close>

definition same_dataset :: "dataset_dict \<Rightarrow> dataset_dict \<Rightarrow> bool" where
  "same_dataset output input_ds \<longleftrightarrow>
     ds_namespace output = ds_namespace input_ds \<and> ds_name output = ds_name input_ds"

text \<open>The two inner loops (lines 87-91) for one pair of tasks.\<close>

definition pair_edges :: "TaskSpec \<Rightarrow> TaskSpec \<Rightarrow> (string \<times> string) list" where
  "pair_edges task_a task_b =
     concat (map (\<lambda>output.
       concat (map (\<lambda>input_ds.
         if same_dataset output input_ds then [(name task_a, name task_b)] else [])
         (inputs task_b)))
       (outputs task_a))"

text \<open>The list \<open>edges\<close> as the loops of lines 81-91 build it, before \<open>set\<close>.\<close>

definition raw_edges :: "TaskSpec list \<Rightarrow> (string \<times> string) list" where
  "raw_edges ts =
     concat (map (\<lambda>(i, task_a).
       concat (map (\<lambda>(j, task_b). if i \<ge> j then [] else pair_edges task_a task_b)
         (enumerate 0 ts)))
       (enumerate 0 ts))"

text \<open>
  \<open>list(set(edges))\<close>: the elements of the result are those of \<open>edges\<close>, each once. Python
  fixes no order for them; the model keeps the last occurrence's, and the theorems speak
  of the set of the result only.
\<close>

definition derive_edges :: "FlowRegistry \<Rightarrow> (string \<times> string) list" where
  "derive_edges r = remdups (raw_edges (tasks r))"

definition linked :: "TaskSpec \<Rightarrow> TaskSpec \<Rightarrow> bool" where
  "linked a b \<longleftrightarrow>
     (\<exists>output \<in> set (outputs a). \<exists>input_ds \<in> set (inputs b). same_dataset output input_ds)"

subsection \<open>\<open>FlowRegistry.get_task\<close> and \<open>update_task_status\<close>\<close>

text \<open>
  \<open>get_task\<close> walks \<open>reversed(self.tasks)\<close> and returns the first match, that is the last
  matching task of the list. It returns the object itself, which the caller then mutates;
  the model returns its position.
\<close>

fun get_task_index :: "string \<Rightarrow> string option \<Rightarrow> TaskSpec list \<Rightarrow> nat option" where
  "get_task_index n rid [] = None"
| "get_task_index n rid (task # rest) =
     (case get_task_index n rid rest of
        Some i \<Rightarrow> Some (Suc i)
      | None \<Rightarrow>
          if name task = n \<and> (rid = None \<or> run_id task = rid) then Some 0 else None)"

definition get_task :: "string \<Rightarrow> string option \<Rightarrow> FlowRegistry \<Rightarrow> TaskSpec option" where
  "get_task n rid r = map_option (\<lambda>i. tasks r ! i) (get_task_index n rid (tasks r))"

text \<open>\<open>now\<close> is what \<open>now_iso_zulu()\<close> returns at the call.\<close>

definition update_task_status ::
  "string \<Rightarrow> string \<Rightarrow> string \<Rightarrow> string \<Rightarrow> dataset_dict list option \<Rightarrow> dataset_dict list option \<Rightarrow>
     jval list option \<Rightarrow> FlowRegistry \<Rightarrow> FlowRegistry" where
  "update_task_status now n rid st ins outs cons r =
     (case get_task_index n (Some rid) (tasks r) of
        None \<Rightarrow> r
      | Some i \<Rightarrow>
          let task = tasks r ! i;
              task = task\<lparr>status := Some st, finished_at := Some now\<rparr>;
              task = (case ins of None \<Rightarrow> task | Some v \<Rightarrow> task\<lparr>inputs := v\<rparr>);
              task = (case outs of None \<Rightarrow> task | Some v \<Rightarrow> task\<lparr>outputs := v\<rparr>);
              task = (case cons of None \<Rightarrow> task | Some v \<Rightarrow> task\<lparr>contracts := v\<rparr>)
          in r\<lparr>tasks := (tasks r)[i := task]\<rparr>)"

subsection \<open>\<open>get_parallelizable_tasks\<close>\<close>

definition parallelizable_types :: "string list" where
  "parallelizable_types = [''Transformer'', ''Enricher'', ''Reconciliator'', ''QualityCheck'', ''Splitter'']"

text \<open>
  The dict comprehension: a later task of the same name overwrites the value and keeps the
  key's place, which is what \<open>AList.update\<close> does.
\<close>

definition get_parallelizable_tasks :: "FlowRegistry \<Rightarrow> (string \<times> bool) list" where
  "get_parallelizable_tasks r =
     fold (\<lambda>task d. AList.update (name task) (component_type task \<in> set parallelizable_types) d)
       (tasks r) []"

subsection \<open>The FlowSpec document: \<open>to_dict\<close> and \<open>from_dict\<close>\<close>

text \<open>
  The dictionaries \<open>to_dict\<close> writes and \<open>from_dict\<close> reads, with the keys of the FlowSpec
  schema. In a document that is read a key may be missing: \<open>None\<close> is the missing key. For
  the keys whose value may be \<open>null\<close> the inner option is the value.
\<close>

record task_doc =
  td_name :: "string option"
  td_component_type :: "string option"
  td_inputs :: "dataset_dict list option"
  td_outputs :: "dataset_dict list option"
  td_contracts :: "jval list option"
  td_tags :: "(string \<times> jval) list option"
  td_started_at :: "string option option"
  td_finished_at :: "string option option"
  td_status :: "string option option"
  td_run_id :: "string option option"
  td_parent :: "string option option"

record flowspec_doc =
  doc_flow :: "string option"
  doc_run_id :: "string option"
  doc_started_at :: "string option option"
  doc_finished_at :: "string option option"
  doc_status :: "string option"
  doc_tasks :: "task_doc list option"
  doc_edges :: "(string \<times> string) list option"
  doc_parallelizable :: "(string \<times> bool) list option"

definition TaskSpec_to_dict :: "TaskSpec \<Rightarrow> task_doc" where
  "TaskSpec_to_dict t =
     \<lparr>td_name = Some (name t), td_component_type = Some (component_type t),
      td_inputs = Some (inputs t), td_outputs = Some (outputs t),
      td_contracts = Some (contracts t), td_tags = Some (tags t),
      td_started_at = Some (started_at t), td_finished_at = Some (finished_at t),
      td_status = Some (status t), td_run_id = Some (run_id t), td_parent = Some (parent t)\<rparr>"

definition to_dict :: "FlowRegistry \<Rightarrow> flowspec_doc" where
  "to_dict r =
     \<lparr>doc_flow = Some (flow_name r), doc_run_id = Some (flow_run_id r),
      doc_started_at = Some (flow_started_at r), doc_finished_at = Some (flow_finished_at r),
      doc_status = Some (flow_status r), doc_tasks = Some (map TaskSpec_to_dict (tasks r)),
      doc_edges = Some (derive_edges r), doc_parallelizable = Some (get_parallelizable_tasks r)\<rparr>"

text \<open>\<open>d.get(k)\<close> and \<open>d.get(k, default)\<close>.\<close>

definition get_or_None :: "'a option option \<Rightarrow> 'a option" where
  "get_or_None v = (case v of None \<Rightarrow> None | Some x \<Rightarrow> x)"

definition get_or :: "'a option \<Rightarrow> 'a \<Rightarrow> 'a" where
  "get_or v dflt = (case v of None \<Rightarrow> dflt | Some x \<Rightarrow> x)"

text \<open>The body of the loop of \<open>from_dict\<close>: \<open>task_data["name"]\<close> and
  \<open>task_data["component_type"]\<close> raise \<open>KeyError\<close>, the other keys are read with \<open>.get\<close>.\<close>

definition TaskSpec_from_doc :: "task_doc \<Rightarrow> error + TaskSpec" where
  "TaskSpec_from_doc task_data =
     (case td_name task_data of
        None \<Rightarrow> Inl (KeyError ''name'')
      | Some n \<Rightarrow>
          (case td_component_type task_data of
             None \<Rightarrow> Inl (KeyError ''component_type'')
           | Some ct \<Rightarrow>
               Inr \<lparr>name = n, component_type = ct,
                    inputs = get_or (td_inputs task_data) [],
                    outputs = get_or (td_outputs task_data) [],
                    contracts = get_or (td_contracts task_data) [],
                    tags = get_or (td_tags task_data) [],
                    started_at = get_or_None (td_started_at task_data),
                    finished_at = get_or_None (td_finished_at task_data),
                    status = get_or_None (td_status task_data),
                    run_id = get_or_None (td_run_id task_data),
                    parent = get_or_None (td_parent task_data)\<rparr>))"

fun load_tasks :: "task_doc list \<Rightarrow> FlowRegistry \<Rightarrow> error + FlowRegistry" where
  "load_tasks [] registry = Inr registry"
| "load_tasks (task_data # rest) registry =
     (case TaskSpec_from_doc task_data of
        Inl e \<Rightarrow> Inl e
      | Inr task \<Rightarrow> load_tasks rest (add_task task registry))"

definition from_dict :: "flowspec_doc \<Rightarrow> error + FlowRegistry" where
  "from_dict data =
     (case doc_flow data of
        None \<Rightarrow> Inl (KeyError ''flow'')
      | Some n \<Rightarrow>
          (case doc_run_id data of
             None \<Rightarrow> Inl (KeyError ''run_id'')
           | Some rid \<Rightarrow>
               load_tasks (get_or (doc_tasks data) [])
                 \<lparr>flow_name = n, flow_run_id = rid, tasks = [],
                  flow_started_at = get_or_None (doc_started_at data),
                  flow_finished_at = get_or_None (doc_finished_at data),
                  flow_status = get_or (doc_status data) ''COMPLETED'',
                  task_stack = []\<rparr>))"

section \<open>core/step.py: flows and steps\<close>

text \<open>
  \<open>Flow\<close>, \<open>Step\<close> and \<open>FlowRegistry\<close> objects are shared by reference (the context variables,
  \<open>Step.flow_registry\<close>, \<open>Flow.registry\<close> and the \<open>atexit\<close> table all point to them) and
  mutated in place, so they live in a store and are named by their address.

  What the code draws from its surroundings is an argument of the model: the clock
  (\<open>now\<close>, the string \<open>now_iso_zulu()\<close> returns), \<open>generate_run_id()\<close> (\<open>rid\<close>), the elapsed
  \<open>wall_time\<close>, and the record \<open>env\<close>. Prometheus is off (\<open>NBX_PROM_ENABLED\<close> defaults to
  false), so \<open>get_prometheus_metrics()\<close> is the empty dict and every guarded update is
  skipped; the tracing context of core/otel.py records attributes of a span and changes
  nothing below, it is left out.
\<close>

datatype level = Debug | Info | Warning | Error

text \<open>A logging call: its level and the text of its message as the source spells it.\<close>

type_synonym log_entry = "level \<times> string"

record env =
  ol_client :: bool \<comment> \<open>\<open>OpenLineageEmitter.client\<close> is set (URL configured, package importable)\<close>
  ol_transport_ok :: bool \<comment> \<open>\<open>client.emit\<close> returns without raising\<close>
  ol_dataset_class :: bool \<comment> \<open>\<open>openlineage.client.event_v2.Dataset\<close> can be imported\<close>
  ol_namespace :: string \<comment> \<open>\<open>settings.ol_namespace\<close>\<close>
  warn_on_missing_io :: bool \<comment> \<open>\<open>settings.warn_on_missing_io\<close>\<close>
  metrics_row :: "string \<Rightarrow> (string \<times> jval) list option" \<comment> \<open>\<open>find_metrics_row\<close>\<close>
  writable :: "string \<Rightarrow> bool" \<comment> \<open>\<open>open(path, "w")\<close> succeeds\<close>

definition COMPONENT_TYPES :: "string list" where
  "COMPONENT_TYPES =
     [''DataLoader'', ''Transformer'', ''Reconciliator'', ''Enricher'', ''Exporter'',
      ''QualityCheck'', ''Splitter'', ''Merger'', ''Orchestrator'', ''Other'']"

text \<open>
  The token \<open>ContextVar.set\<close> returns: it holds the variable's previous value, and
  \<open>ContextVar.reset\<close> accepts it once. A second \<open>reset\<close> with the same token raises
  \<open>RuntimeError\<close>. Only the object that called \<open>set\<close> keeps the token, so the token lives
  in that object's attribute; \<open>None\<close> there is the attribute still being \<open>None\<close>. All
  calls run in one context.
\<close>

record token =
  tok_old :: "nat option"
  tok_used :: bool

definition new_token :: "nat option \<Rightarrow> token" where
  "new_token old = \<lparr>tok_old = old, tok_used = False\<rparr>"

definition token_used_error :: error where
  "token_used_error = RuntimeError ''<Token> has already been used once''"

record Step =
  step_name :: string
  step_component_type :: string
  step_job_namespace :: string
  step_tags :: "(string \<times> jval) list"
  step_run_id :: string
  step_inputs :: "DatasetRef list"
  step_outputs :: "DatasetRef list"
  step_contracts :: "jval list"
  step_token :: "token option"
  step_flow_registry :: "nat option"

record Flow =
  fl_name :: string
  fl_run_id :: string
  fl_auto_export :: bool
  fl_export_path :: "string option"
  fl_registry :: nat
  fl_token :: "token option"
  fl_cleanup_registered :: bool

text \<open>
  A file \<open>json.dump\<close> wrote to the end, or one it left unfinished: \<open>to_json\<close> opens the
  file for writing before it serialises.
\<close>

datatype file_content = Written flowspec_doc | Unfinished

record world =
  registries :: "nat \<rightharpoonup> FlowRegistry"
  flows :: "nat \<rightharpoonup> Flow"
  steps :: "nat \<rightharpoonup> Step"
  next_ref :: nat
  current_flow :: "nat option" \<comment> \<open>\<open>_current_flow\<close>\<close>
  current_step :: "nat option" \<comment> \<open>\<open>_current_step\<close>\<close>
  atexit_handlers :: "nat list" \<comment> \<open>the flows whose \<open>_export_on_exit\<close> is registered\<close>
  files :: "string \<rightharpoonup> file_content"
  logged :: "log_entry list"

definition initial_world :: world where
  "initial_world =
     \<lparr>registries = Map.empty, flows = Map.empty, steps = Map.empty, next_ref = 0,
      current_flow = None, current_step = None, atexit_handlers = [], files = Map.empty,
      logged = []\<rparr>"

definition log_msg :: "level \<Rightarrow> string \<Rightarrow> world \<Rightarrow> world" where
  "log_msg l m w = w\<lparr>logged := logged w @ [(l, m)]\<rparr>"

text \<open>\<open>x or default\<close> on an optional string: \<open>None\<close> and the empty string are false.\<close>

definition str_or :: "string option \<Rightarrow> string \<Rightarrow> string" where
  "str_or v dflt = (case v of None \<Rightarrow> dflt | Some s \<Rightarrow> if s = [] then dflt else s)"

subsection \<open>Lineage events (core/lineage.py, core/facets.py)\<close>

definition generate_job_name :: "string \<Rightarrow> string \<Rightarrow> string" where
  "generate_job_name fname sname = (if sname \<noteq> [] then fname @ ''.'' @ sname else fname)"

text \<open>\<open>row.get(k)\<close> and \<open>row.get(k, default)\<close> on a metrics row.\<close>

definition row_get :: "(string \<times> jval) list \<Rightarrow> string \<Rightarrow> jval" where
  "row_get row k = (case map_of row k of None \<Rightarrow> JNull | Some v \<Rightarrow> v)"

definition row_get_default :: "(string \<times> jval) list \<Rightarrow> string \<Rightarrow> jval \<Rightarrow> jval" where
  "row_get_default row k dflt = (case map_of row k of None \<Rightarrow> dflt | Some v \<Rightarrow> v)"

text \<open>
  \<open>Step._build_run_facets\<close>. A facet object is given by the dictionary its \<open>to_dict\<close>
  (\<open>dataclasses.asdict\<close>) returns.
\<close>

definition build_run_facets :: "env \<Rightarrow> Step \<Rightarrow> bool \<Rightarrow> int \<Rightarrow> (string \<times> jval) list" where
  "build_run_facets e s success wall_time =
     [(''classification'',
        JObj [(''component_type'', JStr (step_component_type s)),
              (''method'', JStr (if step_component_type s \<noteq> ''auto'' then ''manual'' else ''auto'')),
              (''rationale'', JStr (if step_component_type s \<noteq> ''auto''
                                   then ''Manually specified'' else ''Auto-classified''))])]
     @ (case metrics_row e (step_name s) of
          Some (kv # kvs) \<Rightarrow>
            (let row = kv # kvs in
             [(''performance'',
                JObj [(''wall_time_seconds'',
                        (if row_get row ''wall_time_seconds'' = JNull then JNum wall_time
                         else row_get row ''wall_time_seconds'')),
                      (''cpu_hours'', row_get row ''cpu_hours''),
                      (''memory_delta_mb'', row_get row ''memory_delta_mb''),
                      (''throughput_rps'', row_get row ''throughput_records_per_sec''),
                      (''input_tokens'', row_get row ''input_tokens''),
                      (''output_tokens'', row_get row ''output_tokens''),
                      (''llm_cost_usd'', row_get row ''llm_cost'')])]
             @ (if map_of row ''reliability_attempts'' = None then []
                else [(''reliability'',
                        JObj [(''attempts'', row_get_default row ''reliability_attempts'' (JNum 1)),
                              (''retries'', row_get_default row ''reliability_retries'' (JNum 0)),
                              (''succeeded_after_retry'',
                                 row_get_default row ''reliability_succeeded_after_retry'' (JBool False)),
                              (''success'', JBool success),
                              (''mttr_seconds'', row_get row ''reliability_mttr_seconds''),
                              (''wasted_seconds'', row_get row ''reliability_wasted_seconds'')])]))
        | _ \<Rightarrow>
            [(''performance'',
               JObj [(''wall_time_seconds'', JNum wall_time), (''cpu_hours'', JNull),
                     (''memory_delta_mb'', JNull), (''throughput_rps'', JNull),
                     (''input_tokens'', JNull), (''output_tokens'', JNull),
                     (''llm_cost_usd'', JNull)])])
     @ (if step_contracts s \<noteq> [] then [(''contracts'', JObj [(''contracts'', JList (step_contracts s))])]
        else [])"

text \<open>\<open>OpenLineageEmitter._prepare_facets\<close> on facet objects.\<close>

definition prepare_facets :: "(string \<times> jval) list option \<Rightarrow> jval" where
  "prepare_facets facets =
     (case facets of
        None \<Rightarrow> JNull
      | Some [] \<Rightarrow> JNull
      | Some fs \<Rightarrow>
          JObj (map (\<lambda>(k, facet).
                  (k, (case facet of
                         JObj members \<Rightarrow>
                           JObj (members @ [(''_producer'', JStr ''https://github.com/your-org/nbxflow''),
                                           (''_schemaURL'', JStr (''https://github.com/your-org/nbxflow/facets/'' @ k))])
                       | other \<Rightarrow> other)))
                fs))"

text \<open>
  \<open>DatasetRef.to_openlineage_dataset\<close>: an object of the client library's class
  \<open>Dataset\<close> when that can be imported, which is not a value \<open>json.dumps\<close> accepts, and a
  dictionary otherwise.
\<close>

definition to_openlineage_dataset :: "env \<Rightarrow> DatasetRef \<Rightarrow> jval" where
  "to_openlineage_dataset e ds =
     (if ol_dataset_class e then JOpaque
      else JObj [(''namespace'', JStr (ref_namespace ds)), (''name'', JStr (ref_name ds)),
                 (''facets'', (if ref_facets ds \<noteq> [] then JObj (ref_facets ds) else JNull))])"

definition event_data ::
  "env \<Rightarrow> string \<Rightarrow> string \<Rightarrow> string \<Rightarrow> string \<Rightarrow> DatasetRef list \<Rightarrow> DatasetRef list \<Rightarrow>
     (string \<times> jval) list option \<Rightarrow> jval" where
  "event_data e now event_type rid job_name ins outs run_facets =
     JObj [(''eventType'', JStr event_type),
           (''eventTime'', JStr now),
           (''run'', JObj [(''runId'', JStr rid), (''facets'', prepare_facets run_facets)]),
           (''job'', JObj [(''namespace'', JStr (ol_namespace e)), (''name'', JStr job_name),
                          (''facets'', prepare_facets None)]),
           (''inputs'', JList (map (to_openlineage_dataset e) ins)),
           (''outputs'', JList (map (to_openlineage_dataset e) outs)),
           (''producer'', JStr ''nbxflow/0.1.0''),
           (''schemaURL'', JStr ''https://openlineage.io/spec/1-0-5/OpenLineage.json#/definitions/RunEvent'')]"

text \<open>
  \<open>OpenLineageEmitter.emit_event\<close>. With a client the call to \<open>client.emit\<close> stands in a
  \<open>try\<close> and the method returns \<open>True\<close> or \<open>False\<close>. Without one, line 99 evaluates
  \<open>json.dumps(event_data, indent=2)\<close> for the log message, outside any \<open>try\<close>.
\<close>

definition emit_event ::
  "env \<Rightarrow> string \<Rightarrow> string \<Rightarrow> string \<Rightarrow> string \<Rightarrow> DatasetRef list \<Rightarrow> DatasetRef list \<Rightarrow>
     (string \<times> jval) list option \<Rightarrow> error + bool" where
  "emit_event e now event_type rid job_name ins outs run_facets =
     (if ol_client e then Inr (ol_transport_ok e)
      else if serializable (event_data e now event_type rid job_name ins outs run_facets)
      then Inr True
      else Inl TypeError)"

subsection \<open>\<open>Step\<close>\<close>

text \<open>
  \<open>Step.__init__\<close>: the check of line 105 comes first; the new object captures
  \<open>_current_flow.get()\<close>. The model returns the address of the new object.
\<close>

definition Step_init ::
  "env \<Rightarrow> string \<Rightarrow> string \<Rightarrow> string \<Rightarrow> string option \<Rightarrow> (string \<times> jval) list option \<Rightarrow> world \<Rightarrow>
     error + (nat \<times> world)" where
  "Step_init e rid n ct job_namespace tgs w =
     (if ct \<notin> set COMPONENT_TYPES \<and> ct \<noteq> ''auto'' then Inl (ValueError ct)
      else
        let sid = next_ref w;
            s = \<lparr>step_name = n, step_component_type = ct,
                 step_job_namespace = str_or job_namespace (ol_namespace e),
                 step_tags = get_or tgs [], step_run_id = rid,
                 step_inputs = [], step_outputs = [], step_contracts = [],
                 step_token = None, step_flow_registry = current_flow w\<rparr>
        in Inr (sid, w\<lparr>steps := (steps w)(sid \<mapsto> s), next_ref := Suc sid\<rparr>))"

text \<open>Lines 150-161 of \<open>Step.__enter__\<close>, on the registry the step captured.\<close>

definition register_task :: "string \<Rightarrow> Step \<Rightarrow> FlowRegistry \<Rightarrow> FlowRegistry" where
  "register_task now s r =
     (let task_spec =
            \<lparr>name = step_name s, component_type = step_component_type s,
             inputs = [], outputs = [], contracts = [], tags = step_tags s,
             started_at = Some now, finished_at = None, status = Some ''RUNNING'',
             run_id = Some (step_run_id s),
             parent = (if task_stack r \<noteq> [] then Some (last (task_stack r)) else None)\<rparr>;
          r = add_task task_spec r
      in r\<lparr>task_stack := task_stack r @ [step_name s]\<rparr>)"

text \<open>
  \<open>Step.__enter__\<close>. Nothing guards the START event: an exception of \<open>emit_event\<close> leaves
  \<open>__enter__\<close> after the task has been added.
\<close>

definition Step_enter :: "env \<Rightarrow> string \<Rightarrow> nat \<Rightarrow> world \<Rightarrow> error + world" where
  "Step_enter e now sid w =
     (case steps w sid of
        None \<Rightarrow> Inr w
      | Some s \<Rightarrow>
          let w = w\<lparr>steps := (steps w)(sid \<mapsto> s\<lparr>step_token := Some (new_token (current_step w))\<rparr>),
                    current_step := Some sid\<rparr>;
              reg = (case step_flow_registry s of None \<Rightarrow> None | Some fr \<Rightarrow> registries w fr);
              w = (case (step_flow_registry s, reg) of
                     (Some fr, Some r) \<Rightarrow> w\<lparr>registries := (registries w)(fr \<mapsto> register_task now s r)\<rparr>
                   | _ \<Rightarrow> w);
              job_name = generate_job_name
                           (case reg of Some r \<Rightarrow> flow_name r | None \<Rightarrow> ''unknown_flow'')
                           (step_name s)
          in (case emit_event e now ''START'' (step_run_id s) job_name [] [] None of
                Inl err \<Rightarrow> Inl err
              | Inr _ \<Rightarrow>
                  Inr (log_msg Info
                         ''Started step: {self.name} (component_type: {self.component_type})'' w)))"

text \<open>\<open>Step.mark_input\<close>, \<open>Step.mark_output\<close> and \<open>Step.add_contract\<close>.\<close>

definition Step_mark_input :: "nat \<Rightarrow> DatasetRef \<Rightarrow> world \<Rightarrow> world" where
  "Step_mark_input sid dataset w =
     (case steps w sid of
        None \<Rightarrow> w
      | Some s \<Rightarrow>
          log_msg Debug ''Marked input dataset: {dataset.namespace}:{dataset.name}''
            (w\<lparr>steps := (steps w)(sid \<mapsto> s\<lparr>step_inputs := step_inputs s @ [dataset]\<rparr>)\<rparr>))"

definition Step_mark_output :: "nat \<Rightarrow> DatasetRef \<Rightarrow> world \<Rightarrow> world" where
  "Step_mark_output sid dataset w =
     (case steps w sid of
        None \<Rightarrow> w
      | Some s \<Rightarrow>
          log_msg Debug ''Marked output dataset: {dataset.namespace}:{dataset.name}''
            (w\<lparr>steps := (steps w)(sid \<mapsto> s\<lparr>step_outputs := step_outputs s @ [dataset]\<rparr>)\<rparr>))"

definition Step_add_contract :: "nat \<Rightarrow> jval \<Rightarrow> world \<Rightarrow> world" where
  "Step_add_contract sid contract w =
     (case steps w sid of
        None \<Rightarrow> w
      | Some s \<Rightarrow>
          log_msg Debug ''Added contract: {contract.get('suite', 'unknown')}''
            (w\<lparr>steps := (steps w)(sid \<mapsto> s\<lparr>step_contracts := step_contracts s @ [contract]\<rparr>)\<rparr>))"

text \<open>
  Lines 210-224 of \<open>Step.__exit__\<close>: the update of the registry and the pop of the stack.
\<close>

definition finalize_task :: "string \<Rightarrow> Step \<Rightarrow> bool \<Rightarrow> FlowRegistry \<Rightarrow> FlowRegistry" where
  "finalize_task now s success r =
     (let r = update_task_status now (step_name s) (step_run_id s)
                (if success then ''SUCCESS'' else ''FAILED'')
                (Some (map DatasetRef_to_dict (step_inputs s)))
                (Some (map DatasetRef_to_dict (step_outputs s)))
                (Some (step_contracts s)) r
      in if task_stack r \<noteq> [] \<and> last (task_stack r) = step_name s
         then r\<lparr>task_stack := butlast (task_stack r)\<rparr> else r)"

text \<open>Lines 227-231: the warnings about missing inputs and outputs.\<close>

definition warn_missing_io :: "env \<Rightarrow> Step \<Rightarrow> world \<Rightarrow> world" where
  "warn_missing_io e s w =
     (if warn_on_missing_io e then
        let w = (if step_inputs s = []
                 then log_msg Warning
                        ''Step '{self.name}' has no marked inputs. Use mark_input() to track data lineage.'' w
                 else w)
        in (if step_outputs s = []
            then log_msg Warning
                   ''Step '{self.name}' has no marked outputs. Use mark_output() to track data lineage.'' w
            else w)
      else w)"

text \<open>
  The \<open>try\<close> block of \<open>Step.__exit__\<close> (lines 189-252). \<open>Inl\<close> is an exception that leaves
  the block; the statements after the raising one are not run.
\<close>

definition Step_exit_body :: "env \<Rightarrow> string \<Rightarrow> int \<Rightarrow> bool \<Rightarrow> Step \<Rightarrow> world \<Rightarrow> error + world" where
  "Step_exit_body e now wall_time success s w =
     (let run_facets = build_run_facets e s success wall_time;
          reg = (case step_flow_registry s of None \<Rightarrow> None | Some fr \<Rightarrow> registries w fr);
          job_name = generate_job_name
                       (case reg of Some r \<Rightarrow> flow_name r | None \<Rightarrow> ''unknown_flow'')
                       (step_name s)
      in (case emit_event e now (if success then ''COMPLETE'' else ''FAIL'') (step_run_id s) job_name
                 (step_inputs s) (step_outputs s) (Some run_facets) of
            Inl err \<Rightarrow> Inl err
          | Inr _ \<Rightarrow>
              let w = (case (step_flow_registry s, reg) of
                         (Some fr, Some r) \<Rightarrow>
                           w\<lparr>registries := (registries w)(fr \<mapsto> finalize_task now s success r)\<rparr>
                       | _ \<Rightarrow> w);
                  w = warn_missing_io e s w
              in Inr (log_msg Info ''Step {self.name} {status_msg} (duration: {wall_time:.2f}s)'' w)))"

text \<open>
  \<open>Step.__exit__\<close>, called by the \<open>with\<close> statement with the exception that left the body
  (\<open>exc\<close>, \<open>None\<close> when the body ended normally). \<open>except Exception\<close> logs what the \<open>try\<close>
  block raised; \<open>finally\<close> calls \<open>_current_step.reset(self._step_token)\<close>. When that call
  returns, the method returns \<open>False\<close> and the \<open>with\<close> statement re-raises the exception
  of the body; when it raises, its \<open>RuntimeError\<close> leaves \<open>__exit__\<close> in place of the
  exception of the body. The second component is the exception the caller sees.
\<close>

definition Step_exit :: "env \<Rightarrow> string \<Rightarrow> int \<Rightarrow> error option \<Rightarrow> nat \<Rightarrow> world \<Rightarrow> world \<times> error option" where
  "Step_exit e now wall_time exc sid w =
     (case steps w sid of
        None \<Rightarrow> (w, exc)
      | Some s \<Rightarrow>
          let w = (case Step_exit_body e now wall_time (exc = None) s w of
                     Inl err \<Rightarrow> log_msg Error ''Error in step cleanup: {e}'' w
                   | Inr w' \<Rightarrow> w')
          in (case step_token s of
                None \<Rightarrow> (w, exc)
              | Some tok \<Rightarrow>
                  if tok_used tok then (w, Some token_used_error)
                  else (w\<lparr>current_step := tok_old tok,
                          steps := (steps w)(sid \<mapsto> s\<lparr>step_token := Some (tok\<lparr>tok_used := True\<rparr>)\<rparr>)\<rparr>,
                        exc)))"

text \<open>The module-level \<open>mark_input\<close> and \<open>mark_output\<close> (lines 342-356).\<close>

definition mark_input :: "DatasetRef \<Rightarrow> world \<Rightarrow> world" where
  "mark_input dataset w =
     (case current_step w of
        Some sid \<Rightarrow> Step_mark_input sid dataset w
      | None \<Rightarrow> log_msg Warning ''mark_input() called outside of step context'' w)"

definition mark_output :: "DatasetRef \<Rightarrow> world \<Rightarrow> world" where
  "mark_output dataset w =
     (case current_step w of
        Some sid \<Rightarrow> Step_mark_output sid dataset w
      | None \<Rightarrow> log_msg Warning ''mark_output() called outside of step context'' w)"

subsection \<open>\<open>Flow\<close>\<close>

text \<open>\<open>Flow.__init__\<close>: \<open>rid\<close> is what \<open>generate_run_id()\<close> would return.\<close>

definition Flow_init :: "string \<Rightarrow> string \<Rightarrow> string option \<Rightarrow> bool \<Rightarrow> string option \<Rightarrow> world \<Rightarrow> nat \<times> world" where
  "Flow_init rid n given_run_id auto_export export_path w =
     (let the_run_id = str_or given_run_id rid;
          fr = next_ref w;
          fid = Suc fr;
          f = \<lparr>fl_name = n, fl_run_id = the_run_id, fl_auto_export = auto_export,
               fl_export_path = export_path, fl_registry = fr, fl_token = None,
               fl_cleanup_registered = False\<rparr>
      in (fid, w\<lparr>registries := (registries w)(fr \<mapsto> mk_FlowRegistry n the_run_id),
                 flows := (flows w)(fid \<mapsto> f), next_ref := Suc fid\<rparr>))"

definition update_registry :: "nat \<Rightarrow> (FlowRegistry \<Rightarrow> FlowRegistry) \<Rightarrow> world \<Rightarrow> world" where
  "update_registry fr g w =
     (case registries w fr of
        None \<Rightarrow> w
      | Some r \<Rightarrow> w\<lparr>registries := (registries w)(fr \<mapsto> g r)\<rparr>)"

text \<open>\<open>Flow.__enter__\<close>: \<open>atexit.register(self._export_on_exit)\<close> is the only use of the export.\<close>

definition Flow_enter :: "string \<Rightarrow> nat \<Rightarrow> world \<Rightarrow> world" where
  "Flow_enter now fid w =
     (case flows w fid of
        None \<Rightarrow> w
      | Some f \<Rightarrow>
          let f = f\<lparr>fl_token := Some (new_token (current_flow w))\<rparr>;
              w = w\<lparr>current_flow := Some (fl_registry f)\<rparr>;
              w = update_registry (fl_registry f) (\<lambda>r. r\<lparr>flow_started_at := Some now\<rparr>) w;
              register = fl_auto_export f \<and> \<not> fl_cleanup_registered f;
              w = (if register then w\<lparr>atexit_handlers := atexit_handlers w @ [fid]\<rparr> else w);
              f = (if register then f\<lparr>fl_cleanup_registered := True\<rparr> else f)
          in log_msg Info ''Started flow: {self.name} (run_id: {self.run_id})''
               (w\<lparr>flows := (flows w)(fid \<mapsto> f)\<rparr>))"

text \<open>
  \<open>Flow.__exit__\<close>. As for a step, \<open>finally\<close> calls \<open>_current_flow.reset(self._token)\<close>,
  whose \<open>RuntimeError\<close> on a used token replaces the exception of the body; the second
  component is the exception the caller sees. The method never calls the export.
\<close>

definition Flow_exit :: "string \<Rightarrow> error option \<Rightarrow> nat \<Rightarrow> world \<Rightarrow> world \<times> error option" where
  "Flow_exit now exc fid w =
     (case flows w fid of
        None \<Rightarrow> (w, exc)
      | Some f \<Rightarrow>
          let w = update_registry (fl_registry f) (\<lambda>r. r\<lparr>flow_finished_at := Some now\<rparr>) w;
              w = (if exc = None
                   then update_registry (fl_registry f) (\<lambda>r. r\<lparr>flow_status := ''SUCCESS''\<rparr>) w
                   else log_msg Error ''Flow {self.name} failed: {exc_val}''
                          (update_registry (fl_registry f) (\<lambda>r. r\<lparr>flow_status := ''FAILED''\<rparr>) w));
              w = log_msg Info ''Completed flow: {self.name} with status: {self.registry.status}'' w
          in (case fl_token f of
                None \<Rightarrow> (w, exc)
              | Some tok \<Rightarrow>
                  if tok_used tok then (w, Some token_used_error)
                  else (w\<lparr>current_flow := tok_old tok,
                          flows := (flows w)(fid \<mapsto> f\<lparr>fl_token := Some (tok\<lparr>tok_used := True\<rparr>)\<rparr>)\<rparr>,
                        exc)))"

text \<open>What \<open>json.dump\<close> must be able to serialise in the document of a registry.\<close>

definition dataset_serializable :: "dataset_dict \<Rightarrow> bool" where
  "dataset_serializable d = (case ds_facets d of None \<Rightarrow> True | Some v \<Rightarrow> serializable v)"

definition task_serializable :: "TaskSpec \<Rightarrow> bool" where
  "task_serializable t \<longleftrightarrow>
     list_all dataset_serializable (inputs t) \<and> list_all dataset_serializable (outputs t)
     \<and> list_all serializable (contracts t) \<and> serializable (JObj (tags t))"

text \<open>
  \<open>FlowRegistry.to_json\<close>: \<open>open(path, "w")\<close> creates or empties the file, then
  \<open>json.dump(self.to_dict(), f, indent=2)\<close> writes it; when \<open>json.dump\<close> raises, the file
  stays as far as it had been written. The second component is the exception raised.
\<close>

definition to_json :: "env \<Rightarrow> string \<Rightarrow> FlowRegistry \<Rightarrow> world \<Rightarrow> world \<times> error option" where
  "to_json e path r w =
     (if \<not> writable e path then (w, Some OSError)
      else if list_all task_serializable (tasks r)
      then (w\<lparr>files := (files w)(path \<mapsto> Written (to_dict r))\<rparr>, None)
      else (w\<lparr>files := (files w)(path \<mapsto> Unfinished)\<rparr>, Some TypeError))"

text \<open>Lines 91-92: the path given, or \<open>f"{self.name}_flow_{self.run_id}.json"\<close>.\<close>

definition effective_export_path :: "Flow \<Rightarrow> string" where
  "effective_export_path f =
     str_or (fl_export_path f) (fl_name f @ ''_flow_'' @ fl_run_id f @ ''.json'')"

text \<open>
  \<open>Flow._export_on_exit\<close>, the function \<open>atexit\<close> calls when the interpreter ends. The
  second component is the exception that leaves it: \<open>except Exception\<close> catches each one.
\<close>

definition export_on_exit :: "env \<Rightarrow> nat \<Rightarrow> world \<Rightarrow> world \<times> error option" where
  "export_on_exit e fid w =
     (case flows w fid of
        None \<Rightarrow> (w, None)
      | Some f \<Rightarrow>
          let path = effective_export_path f;
              w = w\<lparr>flows := (flows w)(fid \<mapsto> f\<lparr>fl_export_path := Some path\<rparr>)\<rparr>
          in (case registries w (fl_registry f) of
                None \<Rightarrow> (w, None)
              | Some r \<Rightarrow>
                  (case to_json e path r w of
                     (w', None) \<Rightarrow>
                       (log_msg Info ''Flow registry exported to: {self.export_path}'' w', None)
                   | (w', Some err) \<Rightarrow>
                       (log_msg Error ''Failed to export flow registry: {e}'' w', None))))"

text \<open>The end of the interpreter: \<open>atexit\<close> calls its handlers, the last registered first.\<close>

definition run_atexit :: "env \<Rightarrow> world \<Rightarrow> world" where
  "run_atexit e w = fold (\<lambda>fid w. fst (export_on_exit e fid w)) (rev (atexit_handlers w)) w"

subsection \<open>A run to evaluate\<close>

text \<open>
  The default settings with none of the optional packages installed: no OpenLineage
  client, no metrics class, and a working directory that can be written.
\<close>

definition default_env :: env where
  "default_env =
     \<lparr>ol_client = False, ol_transport_ok = False, ol_dataset_class = False,
      ol_namespace = ''notebook'', warn_on_missing_io = True,
      metrics_row = (\<lambda>_. None), writable = (\<lambda>_. True)\<rparr>"

text \<open>\<open>with flow("p"):\<close> has been entered: the registry is object 0, the flow object 1.\<close>

definition flow_world :: world where
  "flow_world =
     (let (fid, w) = Flow_init ''run-f'' ''p'' None True None initial_world
      in Flow_enter ''2024-01-01T00:00:00Z'' fid w)"

text \<open>
  Inside it, \<open>with step("load", component_type=ct) as s: s.mark_input(ds)\<close>; the step is
  object 2.
\<close>

definition step_world :: "string \<Rightarrow> DatasetRef \<Rightarrow> world" where
  "step_world ct ds =
     (case Step_init default_env ''run-s'' ''load'' ct None None flow_world of
        Inl _ \<Rightarrow> flow_world
      | Inr (sid, w) \<Rightarrow>
          (case Step_enter default_env ''2024-01-01T00:00:01Z'' sid w of
             Inl _ \<Rightarrow> w
           | Inr w \<Rightarrow> Step_mark_input sid ds w))"

text \<open>A dataset with a facet value that is not JSON, such as a \<open>datetime\<close>.\<close>

definition unserializable_input :: DatasetRef where
  "unserializable_input =
     \<lparr>ref_namespace = ''file'', ref_name = ''/data/x.csv'', ref_facets = [(''loaded_at'', JOpaque)]\<rparr>"


section \<open>The exporters\<close>

subsection \<open>Name sanitization\<close>

text \<open>The character class \<open>[a-zA-Z0-9_]\<close> of the regular expressions, by code point.\<close>

definition is_upper :: "char \<Rightarrow> bool" where
  "is_upper c \<longleftrightarrow> 65 \<le> (of_char c :: nat) \<and> (of_char c :: nat) \<le> 90"

definition is_lower :: "char \<Rightarrow> bool" where
  "is_lower c \<longleftrightarrow> 97 \<le> (of_char c :: nat) \<and> (of_char c :: nat) \<le> 122"

definition is_ascii_digit :: "char \<Rightarrow> bool" where
  "is_ascii_digit c \<longleftrightarrow> 48 \<le> (of_char c :: nat) \<and> (of_char c :: nat) \<le> 57"

definition is_word_char :: "char \<Rightarrow> bool" where
  "is_word_char c \<longleftrightarrow> is_lower c \<or> is_upper c \<or> is_ascii_digit c \<or> c = CHR ''_''"

text \<open>
  \<open>str.lower\<close> and \<open>str.isdigit\<close> on one code point below 256: the capital letters are
  A-Z and U+00C0-U+00DE without U+00D7; the digits are 0-9 and the superscripts
  U+00B2, U+00B3 and U+00B9.
\<close>

definition py_lower :: "char \<Rightarrow> char" where
  "py_lower c =
     (let n = (of_char c :: nat)
      in if (65 \<le> n \<and> n \<le> 90) \<or> (192 \<le> n \<and> n \<le> 222 \<and> n \<noteq> 215) then char_of (n + 32) else c)"

definition py_isdigit :: "char \<Rightarrow> bool" where
  "py_isdigit c \<longleftrightarrow> is_ascii_digit c \<or> (of_char c :: nat) \<in> {178, 179, 185}"

text \<open>\<open>re.sub(r'[^a-zA-Z0-9_]', '_', s)\<close>.\<close>

definition sub_nonword :: "string \<Rightarrow> string" where
  "sub_nonword s = map (\<lambda>c. if is_word_char c then c else CHR ''_'') s"

text \<open>\<open>re.sub(r'_+', '_', s)\<close>: of each run of underscores the last one stays.\<close>

fun collapse_underscores :: "string \<Rightarrow> string" where
  "collapse_underscores (c # d # cs) =
     (if c = CHR ''_'' \<and> d = CHR ''_'' then collapse_underscores (d # cs)
      else c # collapse_underscores (d # cs))"
| "collapse_underscores cs = cs"

text \<open>\<open>s.strip('_')\<close>.\<close>

definition strip_underscores :: "string \<Rightarrow> string" where
  "strip_underscores s =
     rev (dropWhile (\<lambda>c. c = CHR ''_'') (rev (dropWhile (\<lambda>c. c = CHR ''_'') s)))"

text \<open>\<open>sanitize_task_name\<close> of exporters/airflow_exporter.py.\<close>

definition sanitize_task_name :: "string \<Rightarrow> string" where
  "sanitize_task_name n =
     (let sanitized = sub_nonword (map py_lower n);
          sanitized = collapse_underscores sanitized;
          sanitized = strip_underscores sanitized;
          sanitized = (if sanitized \<noteq> [] \<and> py_isdigit (hd sanitized) then ''task_'' @ sanitized
                       else sanitized)
      in if sanitized \<noteq> [] then sanitized else ''unknown_task'')"

text \<open>\<open>sanitize_function_name\<close> of exporters/prefect_exporter.py.\<close>

definition sanitize_function_name :: "string \<Rightarrow> string" where
  "sanitize_function_name n =
     (let sanitized = sub_nonword (map py_lower n);
          sanitized = collapse_underscores sanitized;
          sanitized = strip_underscores sanitized;
          sanitized = (if sanitized \<noteq> [] \<and> py_isdigit (hd sanitized) then ''task_'' @ sanitized
                       else sanitized)
      in if sanitized \<noteq> [] then sanitized else ''unknown_task'')"

text \<open>\<open>sanitize_asset_name\<close> of exporters/dagster_exporter.py.\<close>

definition sanitize_asset_name :: "string \<Rightarrow> string" where
  "sanitize_asset_name n =
     (let sanitized = sub_nonword (map py_lower n);
          sanitized = collapse_underscores sanitized;
          sanitized = strip_underscores sanitized;
          sanitized = (if sanitized \<noteq> [] \<and> py_isdigit (hd sanitized) then ''asset_'' @ sanitized
                       else sanitized)
      in if sanitized \<noteq> [] then sanitized else ''unknown_asset'')"

text \<open>\<open>_sanitize_mermaid_id\<close> and \<open>_sanitize_dot_id\<close> of exporters/graphviz.py.\<close>

definition sanitize_mermaid_id :: "string \<Rightarrow> string" where
  "sanitize_mermaid_id n =
     (let sanitized = sub_nonword n;
          sanitized = collapse_underscores sanitized;
          sanitized = strip_underscores sanitized
      in if sanitized \<noteq> [] then sanitized else ''node'')"

definition sanitize_dot_id :: "string \<Rightarrow> string" where
  "sanitize_dot_id n =
     (let sanitized = sub_nonword n;
          sanitized = (if sanitized \<noteq> [] \<and> py_isdigit (hd sanitized) then ''n_'' @ sanitized
                       else sanitized)
      in if sanitized \<noteq> [] then sanitized else ''node'')"

text \<open>
  A bare identifier: a letter or an underscore, then letters, digits and underscores.
\<close>

definition valid_identifier :: "string \<Rightarrow> bool" where
  "valid_identifier s \<longleftrightarrow>
     s \<noteq> [] \<and> (is_lower (hd s) \<or> is_upper (hd s) \<or> hd s = CHR ''_'') \<and> list_all is_word_char s"

text \<open>No two underscores in a row; no underscore at either end.\<close>

fun no_underscore_run :: "string \<Rightarrow> bool" where
  "no_underscore_run (c # d # cs) \<longleftrightarrow> (c \<noteq> CHR ''_'' \<or> d \<noteq> CHR ''_'') \<and> no_underscore_run (d # cs)"
| "no_underscore_run cs \<longleftrightarrow> True"

definition stripped :: "string \<Rightarrow> bool" where
  "stripped s \<longleftrightarrow> s = [] \<or> (hd s \<noteq> CHR ''_'' \<and> last s \<noteq> CHR ''_'')"

text \<open>A letter of the class that is not a capital, a digit or the underscore.\<close>

definition lower_word_char :: "char \<Rightarrow> bool" where
  "lower_word_char c \<longleftrightarrow> is_word_char c \<and> \<not> is_upper c"

text \<open>
  The results of the three orchestrator sanitizers are the strings of small letters,
  digits and underscores that have no underscore run, no underscore at either end and no
  digit in front; each such string is left as it is.
\<close>

definition lower_identifier :: "string \<Rightarrow> bool" where
  "lower_identifier r \<longleftrightarrow>
     list_all lower_word_char r \<and> no_underscore_run r \<and> stripped r \<and> r \<noteq> []
     \<and> \<not> py_isdigit (hd r)"

subsection \<open>The dependency graph of the exporters\<close>

text \<open>The key \<open>f"{d.get('namespace', '')}:{d.get('name', '')}"\<close>.\<close>

definition dataset_key :: "dataset_dict \<Rightarrow> string" where
  "dataset_key d = get_or (ds_namespace d) [] @ '':'' @ get_or (ds_name d) []"

text \<open>The inner loop that fills \<open>dataset_producers\<close>: a later writer of a key replaces
  the earlier one.\<close>

definition record_outputs :: "string \<Rightarrow> dataset_dict list \<Rightarrow> (string \<rightharpoonup> string) \<Rightarrow> (string \<rightharpoonup> string)" where
  "record_outputs task_name outs dp = fold (\<lambda>output dp. dp(dataset_key output \<mapsto> task_name)) outs dp"

text \<open>
  \<open>derive_task_dependencies\<close> of exporters/airflow_exporter.py. \<open>task['name']\<close> raises
  \<open>KeyError\<close> on a task without a name.
\<close>

fun airflow_producers :: "task_doc list \<Rightarrow> (string \<rightharpoonup> string) \<Rightarrow> error + (string \<rightharpoonup> string)" where
  "airflow_producers [] dp = Inr dp"
| "airflow_producers (task # rest) dp =
     (case td_name task of
        None \<Rightarrow> Inl (KeyError ''name'')
      | Some n \<Rightarrow>
          airflow_producers rest (record_outputs (sanitize_task_name n) (get_or (td_outputs task) []) dp))"

definition upstream_of ::
  "(string \<rightharpoonup> string) \<Rightarrow> string \<Rightarrow> dataset_dict list \<Rightarrow> (string \<times> string) list" where
  "upstream_of dp task_name ins =
     concat (map (\<lambda>input_ds.
       (case dp (dataset_key input_ds) of
          None \<Rightarrow> []
        | Some upstream_task \<Rightarrow>
            if upstream_task \<noteq> task_name then [(upstream_task, task_name)] else []))
       ins)"

fun airflow_dependencies :: "task_doc list \<Rightarrow> (string \<rightharpoonup> string) \<Rightarrow> error + (string \<times> string) list" where
  "airflow_dependencies [] dp = Inr []"
| "airflow_dependencies (task # rest) dp =
     (case td_name task of
        None \<Rightarrow> Inl (KeyError ''name'')
      | Some n \<Rightarrow>
          (case airflow_dependencies rest dp of
             Inl e \<Rightarrow> Inl e
           | Inr deps \<Rightarrow>
               Inr (upstream_of dp (sanitize_task_name n) (get_or (td_inputs task) []) @ deps)))"

definition derive_task_dependencies :: "task_doc list \<Rightarrow> error + (string \<times> string) list" where
  "derive_task_dependencies ts =
     (case airflow_producers ts Map.empty of
        Inl e \<Rightarrow> Inl e
      | Inr dp \<Rightarrow> airflow_dependencies ts dp)"

text \<open>
  \<open>_derive_mermaid_edges\<close> of exporters/graphviz.py, which both \<open>to_mermaid\<close> and
  \<open>to_graphviz_dot\<close> call. The label of an edge is the part of the dataset's name after
  the last slash, cut to 17 characters and an ellipsis when it has more than 20.
\<close>

definition edge_label :: "dataset_dict \<Rightarrow> string" where
  "edge_label input_ds =
     (let dataset_name = rev (takeWhile (\<lambda>c. c \<noteq> CHR ''/'') (rev (get_or (ds_name input_ds) [])))
      in if length dataset_name > 20 then take 17 dataset_name @ ''...'' else dataset_name)"

definition mermaid_producers :: "task_doc list \<Rightarrow> (string \<rightharpoonup> string)" where
  "mermaid_producers ts =
     fold (\<lambda>task dp. record_outputs (get_or (td_name task) ''unknown'') (get_or (td_outputs task) []) dp)
       ts Map.empty"

definition derive_mermaid_edges :: "task_doc list \<Rightarrow> (string \<times> string \<times> string) list" where
  "derive_mermaid_edges ts =
     (let dp = mermaid_producers ts
      in concat (map (\<lambda>task.
           let task_name = get_or (td_name task) ''unknown''
           in concat (map (\<lambda>input_ds.
                (case dp (dataset_key input_ds) of
                   None \<Rightarrow> []
                 | Some upstream_task \<Rightarrow>
                     if upstream_task \<noteq> task_name
                     then [(upstream_task, task_name, edge_label input_ds)] else []))
                (get_or (td_inputs task) [])))
           ts))"

text \<open>
  For the comparison with \<open>derive_edges\<close>: both exporters, run on the tasks of a registry,
  fill their table and collect their edges in the same way, apart from the name \<open>g\<close>
  they give a task (its name, or its sanitized name).
\<close>

definition producer_table ::
  "(TaskSpec \<Rightarrow> string) \<Rightarrow> TaskSpec list \<Rightarrow> (string \<rightharpoonup> string) \<Rightarrow> (string \<rightharpoonup> string)" where
  "producer_table g ts dp = fold (\<lambda>t dp. record_outputs (g t) (outputs t) dp) ts dp"

definition consumer_edges ::
  "(TaskSpec \<Rightarrow> string) \<Rightarrow> (string \<rightharpoonup> string) \<Rightarrow> TaskSpec list \<Rightarrow> (string \<times> string) list" where
  "consumer_edges g dp ts = concat (map (\<lambda>t. upstream_of dp (g t) (inputs t)) ts)"

text \<open>
  Every dataset key is written by one task only; and whenever a written and a read dataset
  have the same key, the writer is not later in the list than the reader and the two
  agree on namespace and name.
\<close>

definition single_producer :: "TaskSpec list \<Rightarrow> bool" where
  "single_producer ts \<longleftrightarrow>
     (\<forall>(i, a) \<in> set (enumerate 0 ts). \<forall>(j, b) \<in> set (enumerate 0 ts).
        \<forall>output \<in> set (outputs a). \<forall>other \<in> set (outputs b).
          dataset_key output = dataset_key other \<longrightarrow> i = j)"

definition produced_before_use :: "TaskSpec list \<Rightarrow> bool" where
  "produced_before_use ts \<longleftrightarrow>
     (\<forall>(i, a) \<in> set (enumerate 0 ts). \<forall>(j, b) \<in> set (enumerate 0 ts).
        \<forall>output \<in> set (outputs a). \<forall>input_ds \<in> set (inputs b).
          dataset_key output = dataset_key input_ds \<longrightarrow> i \<le> j \<and> same_dataset output input_ds)"

text \<open>
  The flow \<open>p\<close> of steps L, T and E, and a flow that records the consumer B before the
  producer A.
\<close>

definition pipeline_example :: FlowRegistry where
  "pipeline_example =
     (let raw = \<lparr>ds_namespace = Some ''file'', ds_name = Some ''data/raw.csv'', ds_facets = Some (JObj [])\<rparr>;
          clean = \<lparr>ds_namespace = Some ''file'', ds_name = Some ''data/clean.csv'', ds_facets = Some (JObj [])\<rparr>
      in add_task (mk_TaskSpec ''E'' ''Exporter'' [clean] [])
        (add_task (mk_TaskSpec ''T'' ''Transformer'' [raw] [clean])
          (add_task (mk_TaskSpec ''L'' ''DataLoader'' [] [raw]) (mk_FlowRegistry ''p'' ''r1''))))"

definition consumer_first_example :: FlowRegistry where
  "consumer_first_example =
     (let x = \<lparr>ds_namespace = Some ''file'', ds_name = Some ''data/x.csv'', ds_facets = Some (JObj [])\<rparr>
      in add_task (mk_TaskSpec ''A'' ''DataLoader'' [] [x])
          (add_task (mk_TaskSpec ''B'' ''Transformer'' [x] []) (mk_FlowRegistry ''p'' ''r1'')))"

section \<open>Properties of \<open>derive_edges\<close>\<close>

lemma in_concat_enumerate:
  "e \<in> set (concat (map (\<lambda>(i, x). f i x) (enumerate 0 ts))) \<longleftrightarrow>
     (\<exists>i < length ts. e \<in> set (f i (ts ! i)))"
  by (fastforce simp: in_set_enumerate_eq)

lemma in_pair_edges: "e \<in> set (pair_edges a b) \<longleftrightarrow> linked a b \<and> e = (name a, name b)"
  by (auto simp: pair_edges_def linked_def)

lemma in_raw_edges:
  "e \<in> set (raw_edges ts) \<longleftrightarrow>
     (\<exists>i j. i < j \<and> j < length ts \<and> linked (ts ! i) (ts ! j) \<and> e = (name (ts ! i), name (ts ! j)))"
proof -
  have "e \<in> set (raw_edges ts) \<longleftrightarrow>
      (\<exists>i < length ts. \<exists>j < length ts. e \<in> set (if i \<ge> j then [] else pair_edges (ts ! i) (ts ! j)))"
    unfolding raw_edges_def in_concat_enumerate ..
  also have "\<dots> \<longleftrightarrow> (\<exists>i j. i < j \<and> j < length ts \<and> e \<in> set (pair_edges (ts ! i) (ts ! j)))"
  proof
    assume "\<exists>i < length ts. \<exists>j < length ts. e \<in> set (if i \<ge> j then [] else pair_edges (ts ! i) (ts ! j))"
    then obtain i j where "j < length ts" "e \<in> set (if i \<ge> j then [] else pair_edges (ts ! i) (ts ! j))"
      by blast
    then have "i < j \<and> j < length ts \<and> e \<in> set (pair_edges (ts ! i) (ts ! j))"
      by (cases "i \<ge> j") simp_all
    then show "\<exists>i j. i < j \<and> j < length ts \<and> e \<in> set (pair_edges (ts ! i) (ts ! j))" by blast
  next
    assume "\<exists>i j. i < j \<and> j < length ts \<and> e \<in> set (pair_edges (ts ! i) (ts ! j))"
    then obtain i j where ij: "i < j" "j < length ts" "e \<in> set (pair_edges (ts ! i) (ts ! j))"
      by blast
    then have "i < length ts" "e \<in> set (if i \<ge> j then [] else pair_edges (ts ! i) (ts ! j))"
      by simp_all
    with ij show "\<exists>i < length ts. \<exists>j < length ts. e \<in> set (if i \<ge> j then [] else pair_edges (ts ! i) (ts ! j))"
      by blast
  qed
  finally show ?thesis by (simp add: in_pair_edges)
qed

lemmas eval_edges =
  derive_edges_def raw_edges_def pair_edges_def add_task_def mk_TaskSpec_def
  mk_FlowRegistry_def same_dataset_def enumerate_eq_zip upt_rec

text \<open>
  C1. The result of \<open>derive_edges\<close> holds each edge once, and its edges are exactly the
  pairs \<open>(task_i.name, task_j.name)\<close> over list positions \<open>i < j\<close> such that an output of
  \<open>task_i\<close> and an input of \<open>task_j\<close> agree on namespace and name. Recording a producer
  \<open>a\<close> of \<open>x\<close> and then a consumer \<open>b\<close> of \<open>x\<close> gives the edge \<open>(a, b)\<close>; recording
  the consumer first gives no edge.
\<close>

theorem derive_edges_forward_pairs:
  "set (derive_edges r) =
     {(name (tasks r ! i), name (tasks r ! j)) | i j. i < j \<and> j < length (tasks r) \<and>
        (\<exists>output \<in> set (outputs (tasks r ! i)). \<exists>input_ds \<in> set (inputs (tasks r ! j)).
           ds_namespace output = ds_namespace input_ds \<and> ds_name output = ds_name input_ds)}
   \<and> distinct (derive_edges r)
   \<and> derive_edges (add_task (mk_TaskSpec b ctb [x] [])
        (add_task (mk_TaskSpec a cta [] [x]) (mk_FlowRegistry f rid))) = [(a, b)]
   \<and> derive_edges (add_task (mk_TaskSpec a cta [] [x])
        (add_task (mk_TaskSpec b ctb [x] []) (mk_FlowRegistry f rid))) = []"
proof -
  have "set (derive_edges r) =
     {(name (tasks r ! i), name (tasks r ! j)) | i j. i < j \<and> j < length (tasks r) \<and>
        (\<exists>output \<in> set (outputs (tasks r ! i)). \<exists>input_ds \<in> set (inputs (tasks r ! j)).
           ds_namespace output = ds_namespace input_ds \<and> ds_name output = ds_name input_ds)}"
    by (rule set_eqI) (auto simp: derive_edges_def in_raw_edges linked_def same_dataset_def)
  moreover have "distinct (derive_edges r)"
    by (simp add: derive_edges_def)
  moreover have "derive_edges (add_task (mk_TaskSpec b ctb [x] [])
        (add_task (mk_TaskSpec a cta [] [x]) (mk_FlowRegistry f rid))) = [(a, b)]"
    by (simp add: eval_edges)
  moreover have "derive_edges (add_task (mk_TaskSpec a cta [] [x])
        (add_task (mk_TaskSpec b ctb [x] []) (mk_FlowRegistry f rid))) = []"
    by (simp add: eval_edges)
  ultimately show ?thesis by blast
qed

text \<open>
  When no two tasks share a name, no edge leads from a name to itself.
\<close>

lemma derive_edges_irreflexive_on_distinct_names:
  assumes "distinct (map name (tasks r))"
  shows "(a, a) \<notin> set (derive_edges r)"
proof
  assume "(a, a) \<in> set (derive_edges r)"
  then obtain i j where ij: "i < j" "j < length (tasks r)"
    and eq: "name (tasks r ! i) = name (tasks r ! j)"
    by (auto simp: derive_edges_def in_raw_edges)
  from ij have "i < length (map name (tasks r))" "j < length (map name (tasks r))" "i \<noteq> j"
    by simp_all
  with assms have "map name (tasks r) ! i \<noteq> map name (tasks r) ! j"
    by (simp only: distinct_conv_nth) blast
  with ij eq show False by simp
qed

text \<open>
  C2. \<open>derive_edges\<close> compares list positions, never names. A step that reads and writes
  one file and runs twice is recorded as two tasks of one name, the first writing what the
  second reads: the edge from the name to itself is returned.
\<close>

theorem derive_edges_repeated_name_self_edge:
  "derive_edges
     (add_task (mk_TaskSpec ''A'' ''Transformer''
                  [\<lparr>ds_namespace = Some ''file'', ds_name = Some ''/data/x.csv'', ds_facets = Some (JObj [])\<rparr>]
                  [\<lparr>ds_namespace = Some ''file'', ds_name = Some ''/data/x.csv'', ds_facets = Some (JObj [])\<rparr>])
     (add_task (mk_TaskSpec ''A'' ''Transformer''
                  [\<lparr>ds_namespace = Some ''file'', ds_name = Some ''/data/x.csv'', ds_facets = Some (JObj [])\<rparr>]
                  [\<lparr>ds_namespace = Some ''file'', ds_name = Some ''/data/x.csv'', ds_facets = Some (JObj [])\<rparr>])
       (mk_FlowRegistry ''p'' ''r1''))) = [(''A'', ''A'')]"
  by (simp add: eval_edges)

section \<open>Properties of the FlowSpec document\<close>

lemma TaskSpec_roundtrip: "TaskSpec_from_doc (TaskSpec_to_dict t) = Inr t"
  by (simp add: TaskSpec_from_doc_def TaskSpec_to_dict_def get_or_def get_or_None_def)

lemma load_tasks_to_dict:
  "load_tasks (map TaskSpec_to_dict ts) r0 = Inr (r0\<lparr>tasks := tasks r0 @ ts\<rparr>)"
  by (induction ts arbitrary: r0) (simp_all add: TaskSpec_roundtrip add_task_def)

lemma from_dict_to_dict: "from_dict (to_dict r) = Inr (r\<lparr>task_stack := []\<rparr>)"
  by (simp add: from_dict_def to_dict_def load_tasks_to_dict get_or_def get_or_None_def)

text \<open>
  C3. Loading the document of a registry succeeds and gives back every field of every
  task, and the fields of the flow. The edges and the parallelizable table computed from
  the loaded registry are those of the original, and what the document holds under
  \<open>edges\<close> and \<open>parallelizable\<close> plays no part: with any other values \<open>e\<close> and \<open>p\<close> there,
  the loaded registry is the same.
\<close>

theorem from_dict_to_dict_roundtrip:
  "\<exists>r'. from_dict (to_dict r) = Inr r'
      \<and> tasks r' = tasks r
      \<and> flow_name r' = flow_name r \<and> flow_run_id r' = flow_run_id r
      \<and> flow_started_at r' = flow_started_at r \<and> flow_finished_at r' = flow_finished_at r
      \<and> flow_status r' = flow_status r
      \<and> set (derive_edges r') = set (derive_edges r)
      \<and> get_parallelizable_tasks r' = get_parallelizable_tasks r
      \<and> from_dict ((to_dict r)\<lparr>doc_edges := e, doc_parallelizable := p\<rparr>) = Inr r'"
proof -
  have "from_dict ((to_dict r)\<lparr>doc_edges := e, doc_parallelizable := p\<rparr>) = from_dict (to_dict r)"
    by (simp add: from_dict_def to_dict_def)
  then show ?thesis
    by (simp add: from_dict_to_dict derive_edges_def get_parallelizable_tasks_def)
qed





section \<open>Properties of steps and flows\<close>


lemma get_task_index_less: "get_task_index n rid ts = Some i \<Longrightarrow> i < length ts"
  by (induction ts arbitrary: i) (auto split: option.splits if_splits)


lemma files_update_registry [simp]: "files (update_registry fr g w) = files w"
  by (simp add: update_registry_def split: option.splits)

lemma files_log_msg [simp]: "files (log_msg l m w) = files w"
  by (simp add: log_msg_def)

lemma last_logged_log_msg [simp]: "last (logged (log_msg l m w)) = (l, m)"
  by (simp add: log_msg_def)

text \<open>
  C10. With no step active, the module-level \<open>mark_input\<close> and \<open>mark_output\<close> return
  normally, and the state after the call is the state before it with one warning added to
  the log: no registry, step, flow, file or context variable changes.
\<close>

theorem mark_outside_step:
  "current_step w = None \<Longrightarrow>
     mark_input dataset w = w\<lparr>logged := logged w @ [(Warning, ''mark_input() called outside of step context'')]\<rparr>
     \<and> mark_output dataset w = w\<lparr>logged := logged w @ [(Warning, ''mark_output() called outside of step context'')]\<rparr>"
  by (simp add: mark_input_def mark_output_def log_msg_def)

theorem mark_outside_step_witness:
  "current_step initial_world = None
   \<and> mark_input \<lparr>ref_namespace = ''file'', ref_name = ''/data/x.csv'', ref_facets = []\<rparr> initial_world
       = initial_world\<lparr>logged := [(Warning, ''mark_input() called outside of step context'')]\<rparr>
   \<and> mark_output \<lparr>ref_namespace = ''file'', ref_name = ''/data/x.csv'', ref_facets = []\<rparr> initial_world
       = initial_world\<lparr>logged := [(Warning, ''mark_output() called outside of step context'')]\<rparr>"
  using mark_outside_step [of initial_world "\<lparr>ref_namespace = ''file'', ref_name = ''/data/x.csv'', ref_facets = []\<rparr>"]
  by (simp add: initial_world_def)







text \<open>
  The auto-export as the code has it. \<open>Flow.__exit__\<close> writes no file; it hands the
  exception of the body on when its token is fresh, and raises \<open>RuntimeError\<close> in its
  place when the token has been used. Entering a flow with auto-export registers its
  export with \<open>atexit\<close>. That export never raises; it writes the document of the registry
  to the export path when the file can be written and the document serialised, and logs
  an error otherwise. The path is the one given, or \<open>{flow_name}_flow_{run_id}.json\<close>
  when none or the empty string was given.
\<close>

lemma Flow_exit_files: "files (fst (Flow_exit now exc fid w)) = files w"
  by (simp add: Flow_exit_def Let_def split: option.splits)

lemma Flow_exit_propagates:
  "snd (Flow_exit now exc fid w) =
     (case flows w fid of
        None \<Rightarrow> exc
      | Some f \<Rightarrow>
          (case fl_token f of
             None \<Rightarrow> exc
           | Some tok \<Rightarrow> if tok_used tok then Some token_used_error else exc))"
  by (simp add: Flow_exit_def Let_def split: option.splits)

lemma Flow_enter_registers:
  "flows w fid = Some f \<Longrightarrow> fl_auto_export f \<Longrightarrow> \<not> fl_cleanup_registered f \<Longrightarrow>
     atexit_handlers (Flow_enter now fid w) = atexit_handlers w @ [fid]"
  by (simp add: Flow_enter_def Let_def log_msg_def update_registry_def split: option.splits)

lemma export_on_exit_never_raises: "snd (export_on_exit e fid w) = None"
  by (simp add: export_on_exit_def Let_def split: option.splits prod.splits)

lemma export_on_exit_writes:
  "flows w fid = Some f \<Longrightarrow> registries w (fl_registry f) = Some r \<Longrightarrow>
     writable e (effective_export_path f) \<Longrightarrow> list_all task_serializable (tasks r) \<Longrightarrow>
     files (fst (export_on_exit e fid w)) (effective_export_path f) = Some (Written (to_dict r))"
  by (simp add: export_on_exit_def Let_def to_json_def)

lemma export_on_exit_reports_failure:
  "flows w fid = Some f \<Longrightarrow> registries w (fl_registry f) = Some r \<Longrightarrow>
     \<not> (writable e (effective_export_path f) \<and> list_all task_serializable (tasks r)) \<Longrightarrow>
     last (logged (fst (export_on_exit e fid w))) = (Error, ''Failed to export flow registry: {e}'')"
  by (auto simp: export_on_exit_def Let_def to_json_def)

lemma effective_export_path_cases:
  "effective_export_path f =
     (case fl_export_path f of
        None \<Rightarrow> fl_name f @ ''_flow_'' @ fl_run_id f @ ''.json''
      | Some p \<Rightarrow> if p = [] then fl_name f @ ''_flow_'' @ fl_run_id f @ ''.json'' else p)"
  by (simp add: effective_export_path_def str_or_def split: option.splits)

text \<open>
  A flow object entered twice and left twice: the second \<open>__exit__\<close> resets with the token
  the first one used, and the caller sees \<open>RuntimeError\<close> instead of the exception of the
  body.
\<close>

lemma Flow_exit_used_token_masks:
  "snd (Flow_exit ''2024-01-01T00:00:09Z'' (Some (ValueError ''boom'')) 1
          (fst (Flow_exit ''2024-01-01T00:00:08Z'' None 1
                  (Flow_enter ''2024-01-01T00:00:01Z'' 1 flow_world))))
     = Some token_used_error"
  by code_simp

text \<open>
  C7. \<open>with flow("p"): pass\<close>, auto-export being the default: when \<open>Flow.__exit__\<close> has
  returned, the flow is marked SUCCESS and nothing was raised, but no file
  \<open>p_flow_{run_id}.json\<close> exists; the export is still waiting in the \<open>atexit\<close> table. The
  document of the registry is written to that path only when the interpreter ends and
  \<open>atexit\<close> runs its handlers.
\<close>

theorem Flow_exit_writes_no_file:
  "(case Flow_exit ''2024-01-01T00:00:09Z'' None 1 flow_world of
      (w', propagated) \<Rightarrow>
        (map_option fl_auto_export (flows w' 1), map_option flow_status (registries w' 0),
         propagated, files w' ''p_flow_run-f.json'', atexit_handlers w',
         files (run_atexit default_env w') ''p_flow_run-f.json''
           = map_option (Written \<circ> to_dict) (registries w' 0)))
   = (Some True, Some ''SUCCESS'', None, None, [1], True)"
  by code_simp

text \<open>
  When the COMPLETE/FAIL event is emitted without an exception, the task of the step is
  finalized: left through an exception, it ends FAILED with the time of the exit.
\<close>

lemma Step_exit_marks_failed:
  assumes "steps w sid = Some s" and "step_flow_registry s = Some fr"
    and "registries w fr = Some r"
    and "get_task_index (step_name s) (Some (step_run_id s)) (tasks r) = Some i"
    and "emit_event e now ''FAIL'' (step_run_id s)
           (generate_job_name (flow_name r) (step_name s)) (step_inputs s) (step_outputs s)
           (Some (build_run_facets e s False wall_time)) = Inr b"
  shows "\<exists>r'. registries (fst (Step_exit e now wall_time (Some x) sid w)) fr = Some r'
           \<and> status (tasks r' ! i) = Some ''FAILED''
           \<and> finished_at (tasks r' ! i) = Some now
           \<and> inputs (tasks r' ! i) = map DatasetRef_to_dict (step_inputs s)
           \<and> outputs (tasks r' ! i) = map DatasetRef_to_dict (step_outputs s)"
proof -
  have il: "i < length (tasks r)" using assms(4) by (rule get_task_index_less)
  have reg: "\<exists>r'. registries (case Step_exit_body e now wall_time False s w of Inl err \<Rightarrow> log_msg Error ''Error in step cleanup: {e}'' w | Inr w' \<Rightarrow> w') fr = Some r'
           \<and> status (tasks r' ! i) = Some ''FAILED''
           \<and> finished_at (tasks r' ! i) = Some now
           \<and> inputs (tasks r' ! i) = map DatasetRef_to_dict (step_inputs s)
           \<and> outputs (tasks r' ! i) = map DatasetRef_to_dict (step_outputs s)"
    using assms il
    by (simp add: Step_exit_body_def Let_def finalize_task_def update_task_status_def
        warn_missing_io_def log_msg_def)
  then show ?thesis using assms(1)
    by (auto simp: Step_exit_def Let_def split: option.splits)
qed

text \<open>The exception of the body reaches the caller when the token of the step is fresh.\<close>

lemma Step_exit_propagates:
  "snd (Step_exit e now wall_time exc sid w) =
     (case steps w sid of
        None \<Rightarrow> exc
      | Some s \<Rightarrow>
          (case step_token s of
             None \<Rightarrow> exc
           | Some tok \<Rightarrow> if tok_used tok then Some token_used_error else exc))"
  by (simp add: Step_exit_def Let_def split: option.splits)

text \<open>
  C5. The step \<open>load\<close> marks an input whose facets hold a value that is not JSON, and its
  body raises. No OpenLineage client is configured, so \<open>emit_event\<close> calls \<open>json.dumps\<close>
  on the event, which raises \<open>TypeError\<close> inside the \<open>try\<close> block of \<open>__exit__\<close>, before
  \<open>update_task_status\<close>. The exception of the body still reaches the caller, but the task
  is left RUNNING with no \<open>finished_at\<close>.
\<close>

theorem Step_exit_emission_failure_leaves_running:
  "(case Step_exit default_env ''2024-01-01T00:00:02Z'' 1 (Some (RuntimeError ''boom'')) 2
           (step_world ''Transformer'' unserializable_input) of
      (w', propagated) \<Rightarrow>
        (map_option (map (\<lambda>t. (name t, status t, finished_at t)) \<circ> tasks) (registries w' 0),
         propagated, last (logged w')))
   = (Some [(''load'', Some ''RUNNING'', None)], Some (RuntimeError ''boom''),
      (Error, ''Error in step cleanup: {e}''))"
  by code_simp

section \<open>Properties of the name sanitizers\<close>


lemma lower_word_is_word: "lower_word_char c \<Longrightarrow> is_word_char c"
  by (simp add: lower_word_char_def)

lemma py_lower_not_upper: "\<not> is_upper (py_lower c)"
  by (auto simp: py_lower_def is_upper_def Let_def)

lemma py_lower_fixed: "lower_word_char c \<Longrightarrow> py_lower c = c"
  by (auto simp: lower_word_char_def py_lower_def is_word_char_def is_upper_def is_lower_def
      is_ascii_digit_def Let_def)

lemma underscore_facts:
  "is_word_char (CHR ''_'')" "lower_word_char (CHR ''_'')" "\<not> py_isdigit (CHR ''_'')"
  "\<not> is_upper (CHR ''_'')"
  by (simp_all add: is_word_char_def lower_word_char_def py_isdigit_def is_upper_def
      is_ascii_digit_def)

lemma sub_nonword_word: "list_all is_word_char (sub_nonword s)"
  by (induction s) (simp_all add: sub_nonword_def underscore_facts)

lemma sub_nonword_lower: "list_all lower_word_char (sub_nonword (map py_lower s))"
  by (induction s) (simp_all add: sub_nonword_def underscore_facts lower_word_char_def py_lower_not_upper)

lemma sub_nonword_id: "list_all is_word_char s \<Longrightarrow> sub_nonword s = s"
  by (induction s) (simp_all add: sub_nonword_def)

lemma sub_nonword_lower_id: "list_all lower_word_char s \<Longrightarrow> sub_nonword (map py_lower s) = s"
  by (induction s) (simp_all add: sub_nonword_def py_lower_fixed lower_word_is_word)

lemma collapse_all: "list_all P s \<Longrightarrow> list_all P (collapse_underscores s)"
  by (induction s rule: collapse_underscores.induct) auto

lemma collapse_hd: "\<exists>rest. collapse_underscores (d # cs) = d # rest"
  by (induction cs arbitrary: d) auto

lemma collapse_no_run: "no_underscore_run (collapse_underscores s)"
proof (induction s rule: collapse_underscores.induct)
  case (1 c d cs)
  obtain rest where "collapse_underscores (d # cs) = d # rest"
    using collapse_hd by blast
  with 1 show ?case by auto
qed simp_all

lemma collapse_id: "no_underscore_run s \<Longrightarrow> collapse_underscores s = s"
  by (induction s rule: collapse_underscores.induct) auto

lemma no_run_append: "no_underscore_run (xs @ ys) \<Longrightarrow> no_underscore_run xs \<and> no_underscore_run ys"
proof (induction xs rule: no_underscore_run.induct)
  case (1 c d cs)
  then show ?case by auto
next
  case "2_1"
  then show ?case by simp
next
  case "2_2"
  then show ?case by (cases ys) auto
qed

lemma strip_all: "list_all P s \<Longrightarrow> list_all P (strip_underscores s)"
proof -
  have "set (strip_underscores s) \<subseteq> set s"
    unfolding strip_underscores_def
    by (metis set_rev set_dropWhileD subsetI)
  then show "list_all P s \<Longrightarrow> list_all P (strip_underscores s)"
    by (auto simp: list_all_iff)
qed

lemma strip_decomp:
  "\<exists>pre post. s = pre @ strip_underscores s @ post"
proof -
  let ?P = "\<lambda>c. c = CHR ''_''"
  let ?t = "dropWhile ?P s"
  have "s = takeWhile ?P s @ ?t" by simp
  moreover have "rev ?t = takeWhile ?P (rev ?t) @ dropWhile ?P (rev ?t)" by simp
  then have "?t = rev (dropWhile ?P (rev ?t)) @ rev (takeWhile ?P (rev ?t))"
    by (metis rev_append rev_rev_ident)
  ultimately have "s = takeWhile ?P s @ strip_underscores s @ rev (takeWhile ?P (rev ?t))"
    by (simp add: strip_underscores_def)
  then show ?thesis by blast
qed

lemma strip_no_run: "no_underscore_run s \<Longrightarrow> no_underscore_run (strip_underscores s)"
  using strip_decomp [of s] no_run_append by metis

lemma hd_dropWhile_eq:
  "dropWhile (\<lambda>c. c = u) xs \<noteq> [] \<Longrightarrow> hd (dropWhile (\<lambda>c. c = u) xs) \<noteq> u"
  using hd_dropWhile [of "\<lambda>c. c = u" xs] by simp

lemma last_dropWhile:
  "dropWhile P xs \<noteq> [] \<Longrightarrow> last (dropWhile P xs) = last xs"
  using last_appendR [of "dropWhile P xs" "takeWhile P xs"] by simp

lemma strip_stripped: "stripped (strip_underscores s)"
proof (cases "strip_underscores s = []")
  case True
  then show ?thesis by (simp add: stripped_def)
next
  case False
  define t where "t = dropWhile (\<lambda>c. c = CHR ''_'') s"
  define u where "u = dropWhile (\<lambda>c. c = CHR ''_'') (rev t)"
  have su: "strip_underscores s = rev u"
    by (simp add: strip_underscores_def t_def u_def)
  with False have u: "u \<noteq> []" by simp
  then have rt: "rev t \<noteq> []" unfolding u_def by auto
  then have t: "t \<noteq> []" by simp
  have 1: "last (rev u) = hd u" using u by (simp add: last_rev)
  have 2: "hd u \<noteq> CHR ''_''" using u unfolding u_def by (rule hd_dropWhile_eq)
  have 3: "hd (rev u) = last u" using u by (simp add: hd_rev)
  have 4: "last u = last (rev t)" using u unfolding u_def by (rule last_dropWhile)
  have 5: "last (rev t) = hd t" using t by (simp add: last_rev)
  have 6: "hd t \<noteq> CHR ''_''" using t unfolding t_def by (rule hd_dropWhile_eq)
  from 1 2 3 4 5 6 u show ?thesis by (simp add: stripped_def su)
qed

lemma strip_id: "stripped s \<Longrightarrow> strip_underscores s = s"
proof (cases s)
  case Nil
  then show ?thesis by (simp add: strip_underscores_def)
next
  case (Cons c cs)
  assume "stripped s"
  with Cons have h: "hd s \<noteq> CHR ''_''" and l: "last s \<noteq> CHR ''_''"
    by (auto simp: stripped_def)
  from h Cons have 1: "dropWhile (\<lambda>c. c = CHR ''_'') s = s" by simp
  from Cons have ne: "s \<noteq> []" by simp
  from l ne have "hd (rev s) \<noteq> CHR ''_''" by (simp add: hd_rev)
  with ne have 2: "dropWhile (\<lambda>c. c = CHR ''_'') (rev s) = rev s"
    by (cases "rev s") auto
  from 1 2 show ?thesis by (simp add: strip_underscores_def)
qed


lemma stripped_hd: "stripped s \<Longrightarrow> s \<noteq> [] \<Longrightarrow> hd s \<noteq> CHR ''_'' \<and> last s \<noteq> CHR ''_''"
  by (simp add: stripped_def)

lemma lower_core_clean:
  "list_all lower_word_char (strip_underscores (collapse_underscores (sub_nonword (map py_lower n))))
   \<and> no_underscore_run (strip_underscores (collapse_underscores (sub_nonword (map py_lower n))))
   \<and> stripped (strip_underscores (collapse_underscores (sub_nonword (map py_lower n))))"
  by (simp add: strip_all collapse_all sub_nonword_lower strip_no_run collapse_no_run strip_stripped)

lemma lower_core_fixed:
  "list_all lower_word_char s \<Longrightarrow> no_underscore_run s \<Longrightarrow> stripped s \<Longrightarrow>
     strip_underscores (collapse_underscores (sub_nonword (map py_lower s))) = s"
  by (simp add: sub_nonword_lower_id collapse_id strip_id)

lemma word_core_clean:
  "list_all is_word_char (strip_underscores (collapse_underscores (sub_nonword n)))
   \<and> no_underscore_run (strip_underscores (collapse_underscores (sub_nonword n)))
   \<and> stripped (strip_underscores (collapse_underscores (sub_nonword n)))"
  by (simp add: strip_all collapse_all sub_nonword_word strip_no_run collapse_no_run strip_stripped)

lemma word_core_fixed:
  "list_all is_word_char s \<Longrightarrow> no_underscore_run s \<Longrightarrow> stripped s \<Longrightarrow>
     strip_underscores (collapse_underscores (sub_nonword s)) = s"
  by (simp add: sub_nonword_id collapse_id strip_id)

lemma no_run_prefix:
  "no_underscore_run p \<Longrightarrow> no_underscore_run s \<Longrightarrow> s \<noteq> [] \<Longrightarrow> hd s \<noteq> CHR ''_'' \<Longrightarrow>
     no_underscore_run (p @ s)"
proof (induction p rule: no_underscore_run.induct)
  case (1 c d cs)
  then show ?case by simp
next
  case "2_1"
  then show ?case by simp
next
  case "2_2"
  then show ?case by (cases s) auto
qed

lemma word_not_digit_head:
  "is_word_char c \<Longrightarrow> \<not> py_isdigit c \<Longrightarrow> is_lower c \<or> is_upper c \<or> c = CHR ''_''"
  by (auto simp: is_word_char_def py_isdigit_def)

lemma py_isdigit_word: "is_word_char c \<Longrightarrow> py_isdigit c = is_ascii_digit c"
  by (auto simp: py_isdigit_def is_word_char_def is_lower_def is_upper_def is_ascii_digit_def)

lemma orchestrator_sanitizer:
  assumes g: "\<And>n. g n =
     (let sanitized = sub_nonword (map py_lower n);
          sanitized = collapse_underscores sanitized;
          sanitized = strip_underscores sanitized;
          sanitized = (if sanitized \<noteq> [] \<and> py_isdigit (hd sanitized) then p @ sanitized
                       else sanitized)
      in if sanitized \<noteq> [] then sanitized else fb)"
    and p: "list_all lower_word_char p" "no_underscore_run p" "p \<noteq> []" "hd p \<noteq> CHR ''_''"
           "\<not> py_isdigit (hd p)"
    and fb: "lower_identifier fb"
  shows "lower_identifier (g n)" and "lower_identifier r \<Longrightarrow> g r = r"
proof -
  let ?c = "strip_underscores (collapse_underscores (sub_nonword (map py_lower n)))"
  have c: "list_all lower_word_char ?c" "no_underscore_run ?c" "stripped ?c"
    using lower_core_clean by blast+
  show "lower_identifier (g n)"
  proof (cases "?c = []")
    case True
    then have "g n = fb" by (simp add: g)
    with fb show ?thesis by simp
  next
    case False
    show ?thesis
    proof (cases "py_isdigit (hd ?c)")
      case True
      with False have gn: "g n = p @ ?c" by (simp add: g p)
      have "hd ?c \<noteq> CHR ''_''" using True underscore_facts(3) by auto
      then have "no_underscore_run (p @ ?c)" using c p False by (simp add: no_run_prefix)
      moreover have "stripped (p @ ?c)" using c p False by (simp add: stripped_def)
      ultimately show ?thesis using c p gn by (simp add: lower_identifier_def)
    next
      case notdigit: False
      with False have "g n = ?c" by (simp add: g)
      with c False notdigit show ?thesis by (simp add: lower_identifier_def)
    qed
  qed
next
  assume r: "lower_identifier r"
  then have "strip_underscores (collapse_underscores (sub_nonword (map py_lower r))) = r"
    by (simp add: lower_identifier_def lower_core_fixed)
  with r show "g r = r" by (simp add: g lower_identifier_def)
qed

lemma lower_identifier_valid:
  "lower_identifier r \<Longrightarrow> valid_identifier r \<and> no_underscore_run r \<and> stripped r"
proof -
  assume r: "lower_identifier r"
  then have w: "list_all is_word_char r"
    by (auto simp: lower_identifier_def list_all_iff lower_word_is_word)
  from r have ne: "r \<noteq> []" by (simp add: lower_identifier_def)
  with w have "is_word_char (hd r)" by (cases r) simp_all
  moreover from r have "\<not> py_isdigit (hd r)" by (simp add: lower_identifier_def)
  ultimately have "is_lower (hd r) \<or> is_upper (hd r) \<or> hd r = CHR ''_''"
    by (rule word_not_digit_head)
  with w ne r show ?thesis by (simp add: valid_identifier_def lower_identifier_def)
qed

lemma prefix_facts:
  "list_all lower_word_char ''task_''" "no_underscore_run ''task_''" "''task_'' \<noteq> []"
  "hd ''task_'' \<noteq> CHR ''_''" "\<not> py_isdigit (hd ''task_'')"
  "list_all lower_word_char ''asset_''" "no_underscore_run ''asset_''" "''asset_'' \<noteq> []"
  "hd ''asset_'' \<noteq> CHR ''_''" "\<not> py_isdigit (hd ''asset_'')"
  "lower_identifier ''unknown_task''" "lower_identifier ''unknown_asset''"
  by (simp_all add: lower_identifier_def lower_word_char_def is_word_char_def is_lower_def
      is_upper_def is_ascii_digit_def py_isdigit_def stripped_def)

lemmas task_prefix = prefix_facts(1-5)
lemmas asset_prefix = prefix_facts(6-10)

lemma sanitize_task_name_fixed:
  "lower_identifier (sanitize_task_name n)"
  "sanitize_task_name (sanitize_task_name n) = sanitize_task_name n"
proof -
  show 1: "lower_identifier (sanitize_task_name n)"
    by (rule orchestrator_sanitizer(1)
          [where g = sanitize_task_name, OF sanitize_task_name_def task_prefix prefix_facts(11)])
  show "sanitize_task_name (sanitize_task_name n) = sanitize_task_name n"
    by (rule orchestrator_sanitizer(2)
          [where g = sanitize_task_name, OF sanitize_task_name_def task_prefix prefix_facts(11) 1])
qed

lemma sanitize_function_name_fixed:
  "lower_identifier (sanitize_function_name n)"
  "sanitize_function_name (sanitize_function_name n) = sanitize_function_name n"
proof -
  show 1: "lower_identifier (sanitize_function_name n)"
    by (rule orchestrator_sanitizer(1)
          [where g = sanitize_function_name, OF sanitize_function_name_def task_prefix prefix_facts(11)])
  show "sanitize_function_name (sanitize_function_name n) = sanitize_function_name n"
    by (rule orchestrator_sanitizer(2)
          [where g = sanitize_function_name, OF sanitize_function_name_def task_prefix prefix_facts(11) 1])
qed

lemma sanitize_asset_name_fixed:
  "lower_identifier (sanitize_asset_name n)"
  "sanitize_asset_name (sanitize_asset_name n) = sanitize_asset_name n"
proof -
  show 1: "lower_identifier (sanitize_asset_name n)"
    by (rule orchestrator_sanitizer(1)
          [where g = sanitize_asset_name, OF sanitize_asset_name_def asset_prefix prefix_facts(12)])
  show "sanitize_asset_name (sanitize_asset_name n) = sanitize_asset_name n"
    by (rule orchestrator_sanitizer(2)
          [where g = sanitize_asset_name, OF sanitize_asset_name_def asset_prefix prefix_facts(12) 1])
qed


lemma word_head_classes:
  "is_word_char c \<Longrightarrow> (is_lower c \<or> is_upper c \<or> c = CHR ''_'') = (\<not> is_ascii_digit c)"
  by (auto simp: is_word_char_def is_lower_def is_upper_def is_ascii_digit_def)

lemma sanitize_mermaid_id_clean:
  "list_all is_word_char (sanitize_mermaid_id n) \<and> no_underscore_run (sanitize_mermaid_id n)
   \<and> stripped (sanitize_mermaid_id n) \<and> sanitize_mermaid_id n \<noteq> []"
proof (cases "strip_underscores (collapse_underscores (sub_nonword n)) = []")
  case True
  then have "sanitize_mermaid_id n = ''node''" by (simp add: sanitize_mermaid_id_def)
  then show ?thesis
    by (simp add: is_word_char_def is_lower_def stripped_def)
next
  case False
  then have "sanitize_mermaid_id n = strip_underscores (collapse_underscores (sub_nonword n))"
    by (simp add: sanitize_mermaid_id_def)
  with False word_core_clean [of n] show ?thesis by simp
qed

lemma sanitize_mermaid_id_fixed:
  "sanitize_mermaid_id (sanitize_mermaid_id n) = sanitize_mermaid_id n"
proof -
  let ?r = "sanitize_mermaid_id n"
  have c: "list_all is_word_char ?r" "no_underscore_run ?r" "stripped ?r" "?r \<noteq> []"
    using sanitize_mermaid_id_clean [of n] by blast+
  then have "strip_underscores (collapse_underscores (sub_nonword ?r)) = ?r"
    by (simp add: word_core_fixed)
  with c(4) show ?thesis by (simp add: sanitize_mermaid_id_def [of ?r])
qed

lemma sanitize_mermaid_id_valid:
  "valid_identifier (sanitize_mermaid_id n) = (\<not> is_ascii_digit (hd (sanitize_mermaid_id n)))"
proof -
  let ?r = "sanitize_mermaid_id n"
  have c: "list_all is_word_char ?r" "?r \<noteq> []"
    using sanitize_mermaid_id_clean [of n] by blast+
  then have "is_word_char (hd ?r)" by (cases ?r) simp_all
  then have "(is_lower (hd ?r) \<or> is_upper (hd ?r) \<or> hd ?r = CHR ''_'') = (\<not> is_ascii_digit (hd ?r))"
    by (rule word_head_classes)
  with c show ?thesis by (simp add: valid_identifier_def)
qed

lemma sanitize_dot_id_clean:
  "list_all is_word_char (sanitize_dot_id n) \<and> sanitize_dot_id n \<noteq> []
   \<and> \<not> py_isdigit (hd (sanitize_dot_id n))"
proof (cases "sub_nonword n = []")
  case True
  then have "sanitize_dot_id n = ''node''" by (simp add: sanitize_dot_id_def)
  then show ?thesis
    by (simp add: is_word_char_def is_lower_def py_isdigit_def is_ascii_digit_def)
next
  case False
  show ?thesis
  proof (cases "py_isdigit (hd (sub_nonword n))")
    case True
    with False have "sanitize_dot_id n = ''n_'' @ sub_nonword n" by (simp add: sanitize_dot_id_def)
    then show ?thesis using sub_nonword_word [of n]
      by (simp add: is_word_char_def is_lower_def py_isdigit_def is_ascii_digit_def)
  next
    case notdigit: False
    with False have "sanitize_dot_id n = sub_nonword n" by (simp add: sanitize_dot_id_def)
    with False notdigit sub_nonword_word [of n] show ?thesis by simp
  qed
qed

lemma sanitize_dot_id_fixed: "sanitize_dot_id (sanitize_dot_id n) = sanitize_dot_id n"
proof -
  let ?r = "sanitize_dot_id n"
  have c: "list_all is_word_char ?r" "?r \<noteq> []" "\<not> py_isdigit (hd ?r)"
    using sanitize_dot_id_clean [of n] by blast+
  then have "sub_nonword ?r = ?r" by (simp add: sub_nonword_id)
  with c show ?thesis by (simp add: sanitize_dot_id_def [of ?r])
qed

lemma sanitize_dot_id_valid: "valid_identifier (sanitize_dot_id n)"
proof -
  let ?r = "sanitize_dot_id n"
  have c: "list_all is_word_char ?r" "?r \<noteq> []" "\<not> py_isdigit (hd ?r)"
    using sanitize_dot_id_clean [of n] by blast+
  then have "is_word_char (hd ?r)" by (cases ?r) simp_all
  then have "is_lower (hd ?r) \<or> is_upper (hd ?r) \<or> hd ?r = CHR ''_''"
    using c(3) by (rule word_not_digit_head)
  with c show ?thesis by (simp add: valid_identifier_def)
qed

text \<open>
  C9 (as the code has it). Each of the five sanitizers is idempotent and returns a
  non-empty string of letters, digits and underscores. The three orchestrator sanitizers
  return a valid bare identifier without underscore runs and without an underscore at
  either end. \<open>_sanitize_mermaid_id\<close> collapses and strips as well, but adds no prefix: its
  result is a valid identifier exactly when it does not start with a digit.
  \<open>_sanitize_dot_id\<close> returns a valid identifier; it neither collapses nor strips.
\<close>

theorem sanitizers_idempotent:
  "sanitize_task_name (sanitize_task_name s) = sanitize_task_name s
   \<and> valid_identifier (sanitize_task_name s)
   \<and> no_underscore_run (sanitize_task_name s) \<and> stripped (sanitize_task_name s)
   \<and> sanitize_function_name (sanitize_function_name s) = sanitize_function_name s
   \<and> valid_identifier (sanitize_function_name s)
   \<and> no_underscore_run (sanitize_function_name s) \<and> stripped (sanitize_function_name s)
   \<and> sanitize_asset_name (sanitize_asset_name s) = sanitize_asset_name s
   \<and> valid_identifier (sanitize_asset_name s)
   \<and> no_underscore_run (sanitize_asset_name s) \<and> stripped (sanitize_asset_name s)
   \<and> sanitize_mermaid_id (sanitize_mermaid_id s) = sanitize_mermaid_id s
   \<and> sanitize_mermaid_id s \<noteq> [] \<and> list_all is_word_char (sanitize_mermaid_id s)
   \<and> no_underscore_run (sanitize_mermaid_id s) \<and> stripped (sanitize_mermaid_id s)
   \<and> valid_identifier (sanitize_mermaid_id s) = (\<not> is_ascii_digit (hd (sanitize_mermaid_id s)))
   \<and> sanitize_dot_id (sanitize_dot_id s) = sanitize_dot_id s
   \<and> valid_identifier (sanitize_dot_id s)"
  using sanitize_task_name_fixed [of s] sanitize_function_name_fixed [of s]
    sanitize_asset_name_fixed [of s]
    lower_identifier_valid [of "sanitize_task_name s"]
    lower_identifier_valid [of "sanitize_function_name s"]
    lower_identifier_valid [of "sanitize_asset_name s"]
    sanitize_mermaid_id_fixed [of s] sanitize_mermaid_id_clean [of s] sanitize_mermaid_id_valid [of s]
    sanitize_dot_id_fixed [of s] sanitize_dot_id_valid [of s]
  by blast

text \<open>
  C9, the claim as stated fails: the Mermaid identifier of \<open>2024 load\<close> starts with a digit,
  and the DOT identifier of a name with two spaces and a final underscore keeps the run
  and the final underscore.
\<close>

theorem mermaid_id_may_start_with_digit:
  "sanitize_mermaid_id ''2024 load'' = ''2024_load''
   \<and> valid_identifier ''2024_load'' = False
   \<and> sanitize_dot_id ''raw  data_'' = ''raw__data_''
   \<and> no_underscore_run ''raw__data_'' = False
   \<and> stripped ''raw__data_'' = False"
  by code_simp

section \<open>The graph of the exporters and \<open>derive_edges\<close>\<close>
lemma record_outputs_apply:
  "record_outputs n outs dp k = (if k \<in> dataset_key ` set outs then Some n else dp k)"
  unfolding record_outputs_def
  by (induction outs arbitrary: dp) auto

lemma producer_table_Cons:
  "producer_table g (t # ts) dp = producer_table g ts (record_outputs (g t) (outputs t) dp)"
  by (simp add: producer_table_def)

lemma producer_table_Some:
  "producer_table g ts dp k = Some n \<Longrightarrow>
     dp k = Some n \<or> (\<exists>i < length ts. n = g (ts ! i) \<and> k \<in> dataset_key ` set (outputs (ts ! i)))"
proof (induction ts arbitrary: dp)
  case Nil
  then show ?case by (simp add: producer_table_def)
next
  case (Cons t ts)
  from Cons.prems have "producer_table g ts (record_outputs (g t) (outputs t) dp) k = Some n"
    by (simp add: producer_table_Cons)
  from Cons.IH [OF this] show ?case
  proof
    assume "record_outputs (g t) (outputs t) dp k = Some n"
    then have "dp k = Some n \<or> (n = g t \<and> k \<in> dataset_key ` set (outputs t))"
      by (simp add: record_outputs_apply split: if_splits)
    then show ?thesis by auto
  next
    assume "\<exists>i < length ts. n = g (ts ! i) \<and> k \<in> dataset_key ` set (outputs (ts ! i))"
    then obtain i where "i < length ts" "n = g (ts ! i)" "k \<in> dataset_key ` set (outputs (ts ! i))"
      by blast
    then have "Suc i < length (t # ts) \<and> n = g ((t # ts) ! Suc i)
        \<and> k \<in> dataset_key ` set (outputs ((t # ts) ! Suc i))" by simp
    then show ?thesis by blast
  qed
qed

lemma producer_table_keeps: "dp k \<noteq> None \<Longrightarrow> producer_table g ts dp k \<noteq> None"
  by (induction ts arbitrary: dp) (simp_all add: producer_table_def record_outputs_apply)

lemma producer_table_defined:
  "t \<in> set ts \<Longrightarrow> k \<in> dataset_key ` set (outputs t) \<Longrightarrow> producer_table g ts dp k \<noteq> None"
proof (induction ts arbitrary: dp)
  case Nil
  then show ?case by simp
next
  case (Cons a ts)
  show ?case
  proof (cases "t = a")
    case True
    with Cons.prems have "record_outputs (g a) (outputs a) dp k \<noteq> None"
      by (simp add: record_outputs_apply)
    then show ?thesis by (simp add: producer_table_Cons producer_table_keeps)
  next
    case False
    with Cons.prems have "t \<in> set ts" by simp
    from Cons.IH [OF this Cons.prems(2)] show ?thesis by (simp add: producer_table_Cons)
  qed
qed

lemma in_upstream_of:
  "e \<in> set (upstream_of dp n ins) \<longleftrightarrow>
     (\<exists>d \<in> set ins. \<exists>u. dp (dataset_key d) = Some u \<and> u \<noteq> n \<and> e = (u, n))"
  by (induction ins) (auto simp: upstream_of_def split: option.splits if_splits)

lemma bex_set_nth: "(\<exists>t \<in> set ts. P t) \<longleftrightarrow> (\<exists>j < length ts. P (ts ! j))"
proof
  assume "\<exists>t \<in> set ts. P t"
  then obtain t where "t \<in> set ts" "P t" by blast
  then obtain j where "j < length ts" "ts ! j = t" by (auto simp: in_set_conv_nth)
  with \<open>P t\<close> show "\<exists>j < length ts. P (ts ! j)" by blast
next
  assume "\<exists>j < length ts. P (ts ! j)"
  then obtain j where "j < length ts" "P (ts ! j)" by blast
  then have "ts ! j \<in> set ts" by simp
  with \<open>P (ts ! j)\<close> show "\<exists>t \<in> set ts. P t" by blast
qed

lemma in_consumer_edges:
  "e \<in> set (consumer_edges g dp ts) \<longleftrightarrow>
     (\<exists>j < length ts. \<exists>d \<in> set (inputs (ts ! j)). \<exists>u.
        dp (dataset_key d) = Some u \<and> u \<noteq> g (ts ! j) \<and> e = (u, g (ts ! j)))"
proof -
  have "e \<in> set (consumer_edges g dp ts) \<longleftrightarrow>
      (\<exists>t \<in> set ts. e \<in> set (upstream_of dp (g t) (inputs t)))"
    by (simp add: consumer_edges_def)
  also have "\<dots> \<longleftrightarrow> (\<exists>j < length ts. e \<in> set (upstream_of dp (g (ts ! j)) (inputs (ts ! j))))"
    by (simp only: bex_set_nth)
  finally show ?thesis by (simp only: in_upstream_of)
qed

lemma nth_in_enumerate: "i < length ts \<Longrightarrow> (i, ts ! i) \<in> set (enumerate 0 ts)"
  by (simp add: in_set_enumerate_eq)

lemma single_producerD:
  assumes sp: "single_producer ts" and i: "i < length ts" and j: "j < length ts"
    and ki: "k \<in> dataset_key ` set (outputs (ts ! i))"
    and kj: "k \<in> dataset_key ` set (outputs (ts ! j))"
  shows "i = j"
proof -
  from ki obtain a where a: "a \<in> set (outputs (ts ! i))" "k = dataset_key a" by blast
  from kj obtain b where b: "b \<in> set (outputs (ts ! j))" "k = dataset_key b" by blast
  from sp have "\<forall>(i, a) \<in> set (enumerate 0 ts). \<forall>(j, b) \<in> set (enumerate 0 ts).
        \<forall>output \<in> set (outputs a). \<forall>other \<in> set (outputs b).
          dataset_key output = dataset_key other \<longrightarrow> i = j"
    by (simp only: single_producer_def)
  from bspec [OF this nth_in_enumerate [OF i]]
  have "\<forall>(j, b) \<in> set (enumerate 0 ts).
        \<forall>output \<in> set (outputs (ts ! i)). \<forall>other \<in> set (outputs b).
          dataset_key output = dataset_key other \<longrightarrow> i = j" by simp
  from bspec [OF this nth_in_enumerate [OF j]]
  have "\<forall>output \<in> set (outputs (ts ! i)). \<forall>other \<in> set (outputs (ts ! j)).
          dataset_key output = dataset_key other \<longrightarrow> i = j" by simp
  with a b show ?thesis by metis
qed

lemma produced_before_useD:
  assumes pb: "produced_before_use ts" and i: "i < length ts" and j: "j < length ts"
    and a: "output \<in> set (outputs (ts ! i))" and b: "input_ds \<in> set (inputs (ts ! j))"
    and k: "dataset_key output = dataset_key input_ds"
  shows "i \<le> j \<and> same_dataset output input_ds"
proof -
  from pb have "\<forall>(i, a) \<in> set (enumerate 0 ts). \<forall>(j, b) \<in> set (enumerate 0 ts).
        \<forall>output \<in> set (outputs a). \<forall>input_ds \<in> set (inputs b).
          dataset_key output = dataset_key input_ds \<longrightarrow> i \<le> j \<and> same_dataset output input_ds"
    by (simp only: produced_before_use_def)
  from bspec [OF this nth_in_enumerate [OF i]]
  have "\<forall>(j, b) \<in> set (enumerate 0 ts).
        \<forall>output \<in> set (outputs (ts ! i)). \<forall>input_ds \<in> set (inputs b).
          dataset_key output = dataset_key input_ds \<longrightarrow> i \<le> j \<and> same_dataset output input_ds"
    by simp
  from bspec [OF this nth_in_enumerate [OF j]]
  have "\<forall>output \<in> set (outputs (ts ! i)). \<forall>input_ds \<in> set (inputs (ts ! j)).
          dataset_key output = dataset_key input_ds \<longrightarrow> i \<le> j \<and> same_dataset output input_ds"
    by simp
  with a b k show ?thesis by simp
qed

lemma same_dataset_key: "same_dataset a b \<Longrightarrow> dataset_key a = dataset_key b"
  by (simp add: same_dataset_def dataset_key_def)

lemma consumer_edges_forward:
  assumes dist: "distinct (map g ts)"
    and sp: "single_producer ts" and pb: "produced_before_use ts"
  shows "set (consumer_edges g (producer_table g ts Map.empty) ts) =
           {(g (ts ! i), g (ts ! j)) | i j. i < j \<and> j < length ts \<and> linked (ts ! i) (ts ! j)}"
    (is "?L = ?R")
proof (rule set_eqI)
  fix e
  let ?dp = "producer_table g ts Map.empty"
  show "e \<in> ?L \<longleftrightarrow> e \<in> ?R"
  proof
    assume "e \<in> ?L"
    then obtain j d u where j: "j < length ts" and d: "d \<in> set (inputs (ts ! j))"
      and u: "?dp (dataset_key d) = Some u" and ne: "u \<noteq> g (ts ! j)" and e: "e = (u, g (ts ! j))"
      unfolding in_consumer_edges by blast
    from producer_table_Some [OF u]
    obtain i where i: "i < length ts" and ui: "u = g (ts ! i)"
      and k: "dataset_key d \<in> dataset_key ` set (outputs (ts ! i))"
      by auto
    from k obtain out where out: "out \<in> set (outputs (ts ! i))" "dataset_key out = dataset_key d"
      by auto
    from produced_before_useD [OF pb i j out(1) d out(2)]
    have le: "i \<le> j" and same: "same_dataset out d" by simp_all
    from ne ui have "i \<noteq> j" by auto
    with le have "i < j" by simp
    moreover from out(1) d same have "linked (ts ! i) (ts ! j)" unfolding linked_def by blast
    ultimately show "e \<in> ?R" using j e ui by blast
  next
    assume "e \<in> ?R"
    then obtain i j where ij: "i < j" and j: "j < length ts" and l: "linked (ts ! i) (ts ! j)"
      and e: "e = (g (ts ! i), g (ts ! j))" by blast
    from ij j have i: "i < length ts" by simp
    from l obtain out d where out: "out \<in> set (outputs (ts ! i))" and d: "d \<in> set (inputs (ts ! j))"
      and same: "same_dataset out d" unfolding linked_def by blast
    from same have key: "dataset_key out = dataset_key d" by (rule same_dataset_key)
    have k: "dataset_key d \<in> dataset_key ` set (outputs (ts ! i))"
      by (rule image_eqI [where x = out and f = dataset_key, OF key [symmetric] out])
    from i have "ts ! i \<in> set ts" by simp
    from producer_table_defined [OF this k]
    obtain u where u: "?dp (dataset_key d) = Some u" by blast
    from producer_table_Some [OF u]
    obtain i' where i': "i' < length ts" and ui: "u = g (ts ! i')"
      and k': "dataset_key d \<in> dataset_key ` set (outputs (ts ! i'))"
      by auto
    from single_producerD [OF sp i' i k' k] have "i' = i" .
    with ui have ui2: "u = g (ts ! i)" by simp
    from dist i j ij have "g (ts ! i) \<noteq> g (ts ! j)"
      by (simp add: distinct_conv_nth)
    with ui2 have "u \<noteq> g (ts ! j)" by simp
    with j d u e ui2 show "e \<in> ?L" unfolding in_consumer_edges by blast
  qed
qed

lemma mermaid_producers_to_dict:
  "fold (\<lambda>task dp. record_outputs (get_or (td_name task) ''unknown'') (get_or (td_outputs task) []) dp)
     (map TaskSpec_to_dict ts) dp = producer_table name ts dp"
  by (induction ts arbitrary: dp)
     (simp_all add: producer_table_def TaskSpec_to_dict_def get_or_def)

lemma mermaid_edges_to_dict:
  "map (\<lambda>(s, t, l). (s, t)) (derive_mermaid_edges (map TaskSpec_to_dict ts)) =
     consumer_edges name (producer_table name ts Map.empty) ts"
proof -
  have inner: "map (\<lambda>(s, t, l). (s, t))
       (concat (map (\<lambda>input_ds.
          (case dp (dataset_key input_ds) of
             None \<Rightarrow> []
           | Some upstream_task \<Rightarrow>
               if upstream_task \<noteq> n then [(upstream_task, n, edge_label input_ds)] else []))
          ins)) = upstream_of dp n ins" for dp n ins
    by (induction ins) (auto simp: upstream_of_def split: option.splits)
  have outer: "map (\<lambda>(s, t, l). (s, t))
       (concat (map (\<lambda>task.
           concat (map (\<lambda>input_ds.
                (case dp (dataset_key input_ds) of
                   None \<Rightarrow> []
                 | Some upstream_task \<Rightarrow>
                     if upstream_task \<noteq> get_or (td_name task) ''unknown''
                     then [(upstream_task, get_or (td_name task) ''unknown'', edge_label input_ds)]
                     else []))
                (get_or (td_inputs task) [])))
           (map TaskSpec_to_dict ts))) = consumer_edges name dp ts" for dp
    by (induction ts)
       (simp_all add: consumer_edges_def inner TaskSpec_to_dict_def get_or_def)
  show ?thesis
    unfolding derive_mermaid_edges_def mermaid_producers_def mermaid_producers_to_dict Let_def
    by (rule outer)
qed

lemma airflow_producers_to_dict:
  "airflow_producers (map TaskSpec_to_dict ts) dp =
     Inr (producer_table (sanitize_task_name \<circ> name) ts dp)"
  by (induction ts arbitrary: dp)
     (simp_all add: producer_table_def TaskSpec_to_dict_def get_or_def)

lemma airflow_dependencies_to_dict:
  "airflow_dependencies (map TaskSpec_to_dict ts) dp =
     Inr (consumer_edges (sanitize_task_name \<circ> name) dp ts)"
  by (induction ts)
     (simp_all add: consumer_edges_def TaskSpec_to_dict_def get_or_def)

lemma derive_task_dependencies_to_dict:
  "derive_task_dependencies (map TaskSpec_to_dict ts) =
     Inr (consumer_edges (sanitize_task_name \<circ> name)
            (producer_table (sanitize_task_name \<circ> name) ts Map.empty) ts)"
  by (simp add: derive_task_dependencies_def airflow_producers_to_dict airflow_dependencies_to_dict)

lemma set_derive_edges_linked:
  "set (derive_edges r) =
     {(name (tasks r ! i), name (tasks r ! j)) | i j.
        i < j \<and> j < length (tasks r) \<and> linked (tasks r ! i) (tasks r ! j)}"
  by (rule set_eqI) (auto simp: derive_edges_def in_raw_edges)

text \<open>
  C4 (as the code has it). The exporters look every input up in a table from dataset key
  to the last task that writes the key, whatever the positions of the two tasks, and
  drop an edge only when the two names are equal; the Airflow exporter names tasks by
  their sanitized names. On the tasks of a registry in which every key has one writer,
  no dataset is read before it is written and equal keys mean equal namespace and name,
  the visualizers' edges are those of \<open>derive_edges\<close> when the task names are distinct,
  and the Airflow exporter's edges are those of \<open>derive_edges\<close> with both names
  sanitized when the sanitized names are distinct.
\<close>

theorem exporters_agree_on_ordered_flows:
  assumes "single_producer (tasks r)" and "produced_before_use (tasks r)"
  shows "doc_tasks (to_dict r) = Some (map TaskSpec_to_dict (tasks r))
    \<and> (distinct (map name (tasks r)) \<longrightarrow>
          set (map (\<lambda>(source, target, label). (source, target))
                 (derive_mermaid_edges (map TaskSpec_to_dict (tasks r))))
            = set (derive_edges r))
    \<and> (distinct (map (sanitize_task_name \<circ> name) (tasks r)) \<longrightarrow>
          (\<exists>deps. derive_task_dependencies (map TaskSpec_to_dict (tasks r)) = Inr deps
             \<and> set deps = (\<lambda>(a, b). (sanitize_task_name a, sanitize_task_name b)) ` set (derive_edges r)))"
proof (intro conjI impI)
  show "doc_tasks (to_dict r) = Some (map TaskSpec_to_dict (tasks r))"
    by (simp add: to_dict_def)
next
  assume "distinct (map name (tasks r))"
  from consumer_edges_forward [OF this assms]
  show "set (map (\<lambda>(source, target, label). (source, target))
                 (derive_mermaid_edges (map TaskSpec_to_dict (tasks r))))
            = set (derive_edges r)"
    by (simp only: mermaid_edges_to_dict set_derive_edges_linked)
next
  assume "distinct (map (sanitize_task_name \<circ> name) (tasks r))"
  from consumer_edges_forward [OF this assms]
  have "set (consumer_edges (sanitize_task_name \<circ> name)
              (producer_table (sanitize_task_name \<circ> name) (tasks r) Map.empty) (tasks r))
        = (\<lambda>(a, b). (sanitize_task_name a, sanitize_task_name b)) ` set (derive_edges r)"
    unfolding set_derive_edges_linked by (auto simp: image_iff) blast
  then show "\<exists>deps. derive_task_dependencies (map TaskSpec_to_dict (tasks r)) = Inr deps
             \<and> set deps = (\<lambda>(a, b). (sanitize_task_name a, sanitize_task_name b)) ` set (derive_edges r)"
    by (simp add: derive_task_dependencies_to_dict)
qed


theorem exporters_agree_on_ordered_flows_witness:
  "single_producer (tasks pipeline_example) \<and> produced_before_use (tasks pipeline_example)
   \<and> set (derive_edges pipeline_example) = set [(''L'', ''T''), (''T'', ''E'')]
   \<and> set (map (\<lambda>(source, target, label). (source, target))
              (derive_mermaid_edges (map TaskSpec_to_dict (tasks pipeline_example))))
         = set (derive_edges pipeline_example)
   \<and> (\<exists>deps. derive_task_dependencies (map TaskSpec_to_dict (tasks pipeline_example)) = Inr deps
          \<and> set deps = (\<lambda>(a, b). (sanitize_task_name a, sanitize_task_name b))
                           ` set (derive_edges pipeline_example))"
proof -
  have h1: "single_producer (tasks pipeline_example)" by code_simp
  have h2: "produced_before_use (tasks pipeline_example)" by code_simp
  have h3: "distinct (map name (tasks pipeline_example))" by code_simp
  have h4: "distinct (map (sanitize_task_name \<circ> name) (tasks pipeline_example))" by code_simp
  have e: "set (derive_edges pipeline_example) = set [(''L'', ''T''), (''T'', ''E'')]" by code_simp
  from exporters_agree_on_ordered_flows [OF h1 h2] h1 h2 h3 h4 e show ?thesis by blast
qed

text \<open>
  C4, the claim as stated fails: with the consumer recorded before the producer,
  \<open>derive_edges\<close> has no edge and both exporters have one.
\<close>

theorem exporters_add_backward_edge:
  "derive_edges consumer_first_example = []
   \<and> derive_mermaid_edges (map TaskSpec_to_dict (tasks consumer_first_example)) = [(''A'', ''B'', ''x.csv'')]
   \<and> derive_task_dependencies (map TaskSpec_to_dict (tasks consumer_first_example)) = Inr [(''a'', ''b'')]"
  by code_simp


end
